theory Spec2Isabelle
  imports Complex_Main "HOL-Library.Word"
begin

section \<open>The world of \<^verbatim>\<open>compress.py\<close>: files, the PDF library, the operating system\<close>

text \<open>
  The program works on files. A file system is a map from paths to byte strings;
  \<^verbatim>\<open>os.path.exists\<close> is definedness and \<^verbatim>\<open>os.path.getsize\<close> is the length.
\<close>

type_synonym byte = "8 word"
type_synonym path = string
type_synonym filesystem = "path \<rightharpoonup> byte list"

text \<open>The exceptions the library calls of the program can raise.\<close>

datatype exn =
  FileNotFoundError | FileDataError | SaveError | SameFileError | PermissionError
  | OverflowError | ValueError

text \<open>
  One invocation of the Ghostscript executable by \<^verbatim>\<open>subprocess.call\<close>: either the call
  raises (the executable does not exist), or the process exits with a return code, having
  possibly written bytes to its output file.
\<close>

datatype gs_result = GsRaises | GsExit int "byte list option"

text \<open>
  A page is a value of an arbitrary type \<open>'p\<close>. A document in memory is the way it was
  built: opened from the pages of a file, created empty by \<^verbatim>\<open>fitz.open()\<close>, or grown from
  another document by one call of \<^verbatim>\<open>insert_pdf\<close> (all the pages of a source, or the page
  with one index) or of \<^verbatim>\<open>new_page\<close>. Two documents with the same pages are different
  values when they were built differently, and the library may write them differently.
\<close>

datatype 'p document =
  Opened "'p list"
  | Blank
  | InsertPdf "'p document" "'p document"
  | InsertPage "'p document" "'p document" nat
  | NewPage "'p document" 'p

fun pages_of :: "'p document \<Rightarrow> 'p list" where
  "pages_of (Opened ps) = ps"
| "pages_of Blank = []"
| "pages_of (InsertPdf d src) = pages_of d @ pages_of src"
| "pages_of (InsertPage d src n) = pages_of d @ take 1 (drop n (pages_of src))"
| "pages_of (NewPage d pg) = pages_of d @ [pg]"

text \<open>
  Everything the program calls and does not define is a field of the environment.
  \<^item> \<open>pdf_parse\<close>: what \<^verbatim>\<open>fitz.open(path)\<close> reads from the bytes of a file (\<open>None\<close>: not a PDF);
  \<^item> \<open>pdf_serialize\<close>: the bytes \<^verbatim>\<open>doc.save(path, deflate=True, garbage=4)\<close> writes for a
    document, which may depend on how the document was built;
  \<^item> \<open>pdf_save_raises\<close>: whether that save raises (directory missing, no permission,
    nothing to save);
  \<^item> \<open>ghostscript\<close>: the backend, from the executable name and the content of the input;
  \<^item> \<open>rasterize_bw\<close>: lines 104-120 for one page: render at 200 DPI, grayscale, threshold
    at 0.92 of the mean, PNG, a new page of the same rectangle holding the image
    (\<open>None\<close>: one of these calls raised);
  \<^item> \<open>tempdir\<close>, \<open>path_join\<close>, \<open>path_basename\<close>, \<open>path_splitext\<close>:
    \<^verbatim>\<open>tempfile.gettempdir()\<close> and the functions of \<^verbatim>\<open>os.path\<close>;
  \<^item> \<open>unwritable\<close>: the paths \<^verbatim>\<open>shutil\<close> cannot write;
  \<^item> \<open>format_kb\<close>: the text of line 352 for a size in bytes, the size divided by 1024 and
    formatted by \<^verbatim>\<open>:.1f\<close>.
\<close>

record 'p env =
  pdf_parse :: "byte list \<Rightarrow> 'p list option"
  pdf_serialize :: "'p document \<Rightarrow> byte list"
  pdf_save_raises :: "path \<Rightarrow> 'p document \<Rightarrow> bool"
  ghostscript :: "string \<Rightarrow> byte list option \<Rightarrow> gs_result"
  rasterize_bw :: "'p \<Rightarrow> 'p option"
  tempdir :: path
  path_join :: "path \<Rightarrow> string \<Rightarrow> path"
  path_basename :: "path \<Rightarrow> string"
  path_splitext :: "string \<Rightarrow> string \<times> string"
  unwritable :: "path \<Rightarrow> bool"
  format_kb :: "int \<Rightarrow> string"

definition path_exists :: "filesystem \<Rightarrow> path \<Rightarrow> bool" where
  "path_exists fs p = (fs p \<noteq> None)"

text \<open>\<^verbatim>\<open>get_file_size\<close> (lines 30-34): the size, and 0 for a missing file.\<close>

definition get_file_size :: "filesystem \<Rightarrow> path \<Rightarrow> int" where
  "get_file_size fs p = (case fs p of None \<Rightarrow> 0 | Some b \<Rightarrow> int (length b))"

definition fitz_open :: "'p env \<Rightarrow> filesystem \<Rightarrow> path \<Rightarrow> exn + 'p list" where
  "fitz_open E fs p =
     (case fs p of
        None \<Rightarrow> Inl FileNotFoundError
      | Some b \<Rightarrow> (case pdf_parse E b of None \<Rightarrow> Inl FileDataError | Some d \<Rightarrow> Inr d))"

text \<open>
  \<^verbatim>\<open>d.save(p, deflate=True, garbage=4)\<close>: the file \<open>p\<close> receives the bytes the library
  writes for the document \<open>d\<close>.
\<close>

definition doc_save :: "'p env \<Rightarrow> 'p document \<Rightarrow> path \<Rightarrow> filesystem \<Rightarrow> exn + filesystem" where
  "doc_save E d p fs =
     (if pdf_save_raises E p d then Inl SaveError else Inr (fs(p \<mapsto> pdf_serialize E d)))"

text \<open>\<^verbatim>\<open>str(n)\<close> of a natural number, as the f-string of line 172 formats \<^verbatim>\<open>part_index\<close>.\<close>

definition digit_char :: "nat \<Rightarrow> char" where
  "digit_char d = ''0123456789'' ! d"

function str_nat :: "nat \<Rightarrow> string" where
  "str_nat n = (if n < 10 then [digit_char n] else str_nat (n div 10) @ [digit_char (n mod 10)])"
  by pat_completeness auto
termination
  by (relation "measure id") auto

declare str_nat.simps [simp del]

section \<open>The splitter (lines 134-180)\<close>

text \<open>
  The inner loop, lines 146-170. Its state is the part under construction, the cursor
  \<open>p\<close> and the file system; it ends with the part and the cursor, or with the exception
  of a failed trial save. \<^verbatim>\<open>temp\<close> is a new document that received page \<open>p\<close> of the
  source; the trial document is a new document that received the part and then
  \<^verbatim>\<open>temp\<close>; the part itself receives \<^verbatim>\<open>temp\<close> when the trial is accepted. The size
  compared with the budget is that of the trial file.
\<close>

function add_pages ::
  "'p env \<Rightarrow> 'p list \<Rightarrow> path \<Rightarrow> int \<Rightarrow> 'p document \<Rightarrow> nat \<Rightarrow> filesystem
     \<Rightarrow> filesystem \<times> (exn + 'p document \<times> nat)" where
  "add_pages E doc trial_path max_size_bytes part_doc p fs =
     (if p < length doc then
        (let temp = InsertPage Blank (Opened doc) p in
         if length (pages_of part_doc) = 0 then
           add_pages E doc trial_path max_size_bytes (InsertPdf part_doc temp) (p + 1) fs
         else
           (let trial_doc = InsertPdf (InsertPdf Blank part_doc) temp in
            case doc_save E trial_doc trial_path fs of
              Inl e \<Rightarrow> (fs, Inl e)
            | Inr fs' \<Rightarrow>
                (let trial_size = get_file_size fs' trial_path in
                 if trial_size > max_size_bytes then (fs', Inr (part_doc, p))
                 else add_pages E doc trial_path max_size_bytes (InsertPdf part_doc temp) (p + 1) fs')))
      else (fs, Inr (part_doc, p)))"
  by pat_completeness auto
termination
  by (relation "measure (\<lambda>(E, doc, tp, m, part, p, fs). length doc - p)") auto

declare add_pages.simps [simp del]

text \<open>
  The outer loop, lines 142-177: one iteration builds one part from the cursor
  \<open>start\<close>, saves it under its numbered name and moves the cursor to where the inner
  loop stopped. Each entry of \<open>outputs\<close> pairs the path appended in line 174 with the
  \<^verbatim>\<open>part_doc\<close> saved there in line 173; the list the Python returns is \<open>map fst\<close> of it.
  The loop terminates because the inner loop, started on an empty part below the end,
  moves the cursor.
\<close>

function split_loop ::
  "'p env \<Rightarrow> 'p list \<Rightarrow> path \<Rightarrow> string \<Rightarrow> int \<Rightarrow> nat \<Rightarrow> nat \<Rightarrow> (path \<times> 'p document) list
     \<Rightarrow> filesystem \<Rightarrow> filesystem \<times> (exn + (path \<times> 'p document) list)" where
  "split_loop E doc output_folder base_name max_size_bytes start part_index outputs fs =
     (if start < length doc then
        (case add_pages E doc (path_join E (tempdir E) (''__trial_'' @ base_name @ ''.pdf''))
                max_size_bytes Blank start fs of
           (fs1, Inl e) \<Rightarrow> (fs1, Inl e)
         | (fs1, Inr (part_doc, p)) \<Rightarrow>
             (let out_path = path_join E output_folder
                    (base_name @ ''_part'' @ str_nat part_index @ ''.pdf'') in
              case doc_save E part_doc out_path fs1 of
                Inl e \<Rightarrow> (fs1, Inl e)
              | Inr fs2 \<Rightarrow>
                  split_loop E doc output_folder base_name max_size_bytes p (part_index + 1)
                    (outputs @ [(out_path, part_doc)]) fs2))
      else (fs, Inr outputs))"
  by pat_completeness auto
termination
proof -
  have adv: "q \<le> p' \<and> (pages_of part = [] \<and> q < length doc \<longrightarrow> q < p')"
    if "add_pages E doc tp m part q f = (f', Inr (part', p'))"
    for E :: "'p env" and doc tp m part q f f' part' p'
    using that
  proof (induction E doc tp m part q f rule: add_pages.induct)
    case (1 E doc tp m part q f)
    let ?temp = "InsertPage Blank (Opened doc) q"
    show ?case
    proof (cases "q < length doc")
      case False
      with "1.prems" show ?thesis
        by (subst (asm) add_pages.simps) simp
    next
      case inb: True
      show ?thesis
      proof (cases "pages_of part = []")
        case True
        with inb "1.prems"
        have "add_pages E doc tp m (InsertPdf part ?temp) (q + 1) f = (f', Inr (part', p'))"
          by (subst (asm) add_pages.simps) (simp add: Let_def)
        from "1.IH"(1) [OF inb refl _ this] True have "q + 1 \<le> p'" by simp
        then show ?thesis by simp
      next
        case ne: False
        show ?thesis
        proof (cases "doc_save E (InsertPdf (InsertPdf Blank part) ?temp) tp f")
          case (Inl e)
          with inb ne "1.prems" show ?thesis
            by (subst (asm) add_pages.simps) (simp add: Let_def)
        next
          case (Inr b)
          show ?thesis
          proof (cases "m < get_file_size b tp")
            case True
            with Inr inb ne "1.prems" show ?thesis
              by (subst (asm) add_pages.simps) (simp add: Let_def)
          next
            case False
            with Inr inb ne "1.prems"
            have "add_pages E doc tp m (InsertPdf part ?temp) (q + 1) b = (f', Inr (part', p'))"
              by (subst (asm) add_pages.simps) (simp add: Let_def)
            from "1.IH"(2) [OF inb refl _ refl Inr refl False this] ne
            have "q + 1 \<le> p'" by simp
            with ne show ?thesis by simp
          qed
        qed
      qed
    qed
  qed
  show ?thesis
    apply (relation "measure (\<lambda>(E, doc, folder, base, m, start, i, outs, fs). length doc - start)")
     apply simp
    subgoal premises prems for E doc folder base m start i outs fs x y b xa ya
    proof -
      have "add_pages E doc (path_join E (tempdir E) (''__trial_'' @ base @ ''.pdf''))
              m Blank start fs = (x, Inr (xa, ya))"
        using prems(2,3,4) by simp
      from adv [OF this] prems(1) show ?thesis by (simp add: diff_less_mono2)
    qed
    done
qed

declare split_loop.simps [simp del]

definition split_pdf ::
  "'p env \<Rightarrow> path \<Rightarrow> path \<Rightarrow> string \<Rightarrow> int \<Rightarrow> filesystem
     \<Rightarrow> filesystem \<times> (exn + (path \<times> 'p document) list)" where
  "split_pdf E pdf_path output_folder base_name max_size_bytes fs =
     (case fitz_open E fs pdf_path of
        Inl e \<Rightarrow> (fs, Inl e)
      | Inr doc \<Rightarrow> split_loop E doc output_folder base_name max_size_bytes 0 1 [] fs)"

text \<open>The pages of the parts a run of the splitter returned, with their paths.\<close>

definition parts_of :: "(path \<times> 'p document) list \<Rightarrow> (path \<times> 'p list) list" where
  "parts_of outputs = map (\<lambda>(out_path, part_doc). (out_path, pages_of part_doc)) outputs"

text \<open>
  The document whose size the inner loop compared with the budget before it let a part
  grow to its present pages: a new document that received the previous part and then the
  one-page document of the last page.
\<close>

fun trial_of :: "'p document \<Rightarrow> 'p document" where
  "trial_of (InsertPdf part_doc temp) = InsertPdf (InsertPdf Blank part_doc) temp"
| "trial_of (Opened ps) = Opened ps"
| "trial_of Blank = Blank"
| "trial_of (InsertPage d src n) = InsertPage d src n"
| "trial_of (NewPage d pg) = NewPage d pg"

section \<open>The compression strategies (lines 55-128)\<close>

definition gs_commands :: "string list" where
  "gs_commands = [''gswin64c'', ''gswin32c'', ''gs'']"

text \<open>
  Lines 60-83: the executables are tried in order. A call that raises is skipped; a call
  that exits leaves what it wrote, and ends the loop when the return code is 0 and the
  output file exists with a positive size.
\<close>

fun gs_loop :: "'p env \<Rightarrow> string list \<Rightarrow> path \<Rightarrow> path \<Rightarrow> filesystem \<Rightarrow> filesystem \<times> bool" where
  "gs_loop E [] pdf_path output_path fs = (fs, False)"
| "gs_loop E (gs_exe # rest) pdf_path output_path fs =
     (case ghostscript E gs_exe (fs pdf_path) of
        GsRaises \<Rightarrow> gs_loop E rest pdf_path output_path fs
      | GsExit ret written \<Rightarrow>
          (let fs' = (case written of None \<Rightarrow> fs | Some b \<Rightarrow> fs(output_path \<mapsto> b)) in
           if ret = 0 \<and> path_exists fs' output_path \<and> get_file_size fs' output_path > 0
           then (fs', True)
           else gs_loop E rest pdf_path output_path fs'))"

definition compress_standard_gs ::
  "'p env \<Rightarrow> path \<Rightarrow> path \<Rightarrow> filesystem \<Rightarrow> filesystem \<times> bool" where
  "compress_standard_gs E pdf_path output_path fs = gs_loop E gs_commands pdf_path output_path fs"

definition compress_pymupdf_optimize ::
  "'p env \<Rightarrow> path \<Rightarrow> path \<Rightarrow> filesystem \<Rightarrow> filesystem \<times> bool" where
  "compress_pymupdf_optimize E pdf_path output_path fs =
     (case fitz_open E fs pdf_path of
        Inl e \<Rightarrow> (fs, False)
      | Inr doc \<Rightarrow>
          (case doc_save E (Opened doc) output_path fs of
             Inl e \<Rightarrow> (fs, False)
           | Inr fs' \<Rightarrow> (fs', True)))"

text \<open>
  Lines 102-120: for every page, in order, the new document receives a new page holding
  the black-and-white image of the page.
\<close>

fun bw_pages :: "'p env \<Rightarrow> 'p list \<Rightarrow> 'p document \<Rightarrow> 'p document option" where
  "bw_pages E [] new_pdf = Some new_pdf"
| "bw_pages E (page # rest) new_pdf =
     (case rasterize_bw E page of
        None \<Rightarrow> None
      | Some pdf_page \<Rightarrow> bw_pages E rest (NewPage new_pdf pdf_page))"

definition compress_binary_bw ::
  "'p env \<Rightarrow> path \<Rightarrow> path \<Rightarrow> filesystem \<Rightarrow> filesystem \<times> bool" where
  "compress_binary_bw E pdf_path output_path fs =
     (case fitz_open E fs pdf_path of
        Inl e \<Rightarrow> (fs, False)
      | Inr doc \<Rightarrow>
          (case bw_pages E doc Blank of
             None \<Rightarrow> (fs, False)
           | Some new_pdf \<Rightarrow>
               (case doc_save E new_pdf output_path fs of
                  Inl e \<Rightarrow> (fs, False)
                | Inr fs' \<Rightarrow> (fs', True))))"

section \<open>The pipeline (lines 372-432)\<close>

text \<open>
  The status table of the window: one row for each selected file, in the order of
  selection, holding the base name of the file, its size and its status.
  \<^verbatim>\<open>select_pdfs\<close> (lines 345-354) adds the chosen files that are not yet in the list,
  compared by their full paths, and a row with the status Pending for each.
  \<^verbatim>\<open>update_status\<close> (lines 362-370) goes through the rows in order and writes the message
  into the first row whose name is the given base name, and stops there.
\<close>

type_synonym status_table = "(string \<times> string \<times> string) list"

fun select_pdfs ::
  "'p env \<Rightarrow> filesystem \<Rightarrow> path list \<Rightarrow> path list \<times> status_table \<Rightarrow> path list \<times> status_table" where
  "select_pdfs E fs [] selection = selection"
| "select_pdfs E fs (f # files) selection =
     (case selection of (pdf_list, tree) \<Rightarrow>
        if f \<notin> set pdf_list then
          select_pdfs E fs files
            (pdf_list @ [f],
             tree @ [(path_basename E f, format_kb E (get_file_size fs f), ''Pending'')])
        else select_pdfs E fs files (pdf_list, tree))"

fun update_status :: "status_table \<Rightarrow> string \<Rightarrow> string \<Rightarrow> status_table" where
  "update_status [] filename_base msg = []"
| "update_status ((name, size_kb, status) # items) filename_base msg =
     (if name = filename_base then (name, size_kb, msg) # items
      else (name, size_kb, status) # update_status items filename_base msg)"

text \<open>
  \<^verbatim>\<open>shutil.copy\<close> and \<^verbatim>\<open>shutil.move\<close> on plain files. Copying a file onto itself raises;
  moving a file onto itself leaves it.
\<close>

definition shutil_copy :: "'p env \<Rightarrow> filesystem \<Rightarrow> path \<Rightarrow> path \<Rightarrow> exn + filesystem" where
  "shutil_copy E fs src dst =
     (case fs src of
        None \<Rightarrow> Inl FileNotFoundError
      | Some b \<Rightarrow>
          if src = dst then Inl SameFileError
          else if unwritable E dst then Inl PermissionError
          else Inr (fs(dst \<mapsto> b)))"

definition shutil_move :: "'p env \<Rightarrow> filesystem \<Rightarrow> path \<Rightarrow> path \<Rightarrow> exn + filesystem" where
  "shutil_move E fs src dst =
     (case fs src of
        None \<Rightarrow> Inl FileNotFoundError
      | Some b \<Rightarrow>
          if src = dst then Inr fs
          else if unwritable E dst then Inl PermissionError
          else Inr ((fs(dst \<mapsto> b))(src := None)))"

text \<open>
  The split limit is a Python float: a rational, an infinity or a NaN. Line 417 computes
  \<^verbatim>\<open>int(split_mb * 1024 * 1024)\<close>: the products by powers of two are exact until they
  overflow to an infinity, and \<^verbatim>\<open>int\<close> truncates towards zero and raises on an infinity
  or a NaN.
\<close>

datatype pyfloat = Finite rat | Infinity | NaN

definition target_bytes_of :: "pyfloat \<Rightarrow> exn + int" where
  "target_bytes_of split_mb =
     (case split_mb of
        NaN \<Rightarrow> Inl ValueError
      | Infinity \<Rightarrow> Inl OverflowError
      | Finite r \<Rightarrow>
          (let x = r * 1024 * 1024 in
           if 2 ^ 1024 \<le> \<bar>x\<bar> then Inl OverflowError
           else Inr (if 0 \<le> x then \<lfloor>x\<rfloor> else \<lceil>x\<rceil>)))"

text \<open>\<^verbatim>\<open>sub in s\<close> on strings (line 415).\<close>

fun starts_with :: "string \<Rightarrow> string \<Rightarrow> bool" where
  "starts_with s [] = True"
| "starts_with [] (c # cs) = False"
| "starts_with (x # xs) (c # cs) = (x = c \<and> starts_with xs cs)"

fun str_in :: "string \<Rightarrow> string \<Rightarrow> bool" where
  "str_in sub [] = (sub = [])"
| "str_in sub (x # xs) = (starts_with (x # xs) sub \<or> str_in sub xs)"

text \<open>Lines 401-407: the strategies of the requested level; the result is \<^verbatim>\<open>success\<close>.\<close>

definition run_strategies ::
  "'p env \<Rightarrow> string \<Rightarrow> path \<Rightarrow> path \<Rightarrow> filesystem \<Rightarrow> filesystem \<times> bool" where
  "run_strategies E clevel pdf_path temp_comp fs =
     (if clevel = ''Extreme (B&W)'' then compress_binary_bw E pdf_path temp_comp fs
      else if clevel = ''Standard (GS)'' then
        (case compress_standard_gs E pdf_path temp_comp fs of
           (fs1, success) \<Rightarrow>
             if \<not> success then compress_pymupdf_optimize E pdf_path temp_comp fs1
             else (fs1, success))
      else (fs, False))"

text \<open>
  Lines 396-413: the compression block. It returns the file system, the status table and
  \<^verbatim>\<open>current_source\<close>, the working source of the rest of the pipeline.
\<close>

definition compress_block ::
  "'p env \<Rightarrow> string \<Rightarrow> string \<Rightarrow> string \<Rightarrow> path \<Rightarrow> path \<Rightarrow> filesystem \<times> status_table
     \<Rightarrow> (filesystem \<times> status_table) \<times> path" where
  "compress_block E act clevel base_name pdf_path temp_comp st =
     (case st of (fs, lg) \<Rightarrow>
      (let current_source = pdf_path;
           should_compress = (act = ''Compress Only'' \<or> act = ''Compress + Split'') in
       if should_compress then
         (let lg1 = update_status lg base_name (''Compressing ('' @ clevel @ '')...'') in
          case run_strategies E clevel pdf_path temp_comp fs of
            (fs1, success) \<Rightarrow>
              if success \<and> path_exists fs1 temp_comp \<and> get_file_size fs1 temp_comp > 0
              then ((fs1, lg1), temp_comp)
              else ((fs1, lg1), current_source))
       else ((fs, lg), current_source)))"

text \<open>Lines 391-426: the body of the \<^verbatim>\<open>try\<close>, for one file.\<close>

definition try_body ::
  "'p env \<Rightarrow> path \<Rightarrow> pyfloat \<Rightarrow> string \<Rightarrow> string \<Rightarrow> path \<Rightarrow> string \<Rightarrow> filesystem \<times> status_table
     \<Rightarrow> (filesystem \<times> status_table) \<times> (exn + unit)" where
  "try_body E output_folder split_mb act clevel pdf_path base_name st =
     (let base = fst (path_splitext E base_name);
          temp_comp = path_join E (tempdir E) (base @ ''_comp_temp.pdf'');
          final_output = path_join E output_folder (base @ ''_processed.pdf'') in
      case compress_block E act clevel base_name pdf_path temp_comp st of
        ((fs1, lg1), current_source) \<Rightarrow>
          if str_in ''Split'' act then
            (let lg2 = update_status lg1 base_name ''Splitting...'' in
             case target_bytes_of split_mb of
               Inl e \<Rightarrow> ((fs1, lg2), Inl e)
             | Inr target_bytes \<Rightarrow>
                 (case split_pdf E current_source output_folder base target_bytes fs1 of
                    (fs2, Inl e) \<Rightarrow> ((fs2, lg2), Inl e)
                  | (fs2, Inr outputs) \<Rightarrow>
                      ((fs2, update_status lg2 base_name ''Done (Split)''), Inr ())))
          else
            (case (if current_source \<noteq> pdf_path
                   then shutil_move E fs1 current_source final_output
                   else shutil_copy E fs1 pdf_path final_output) of
               Inl e \<Rightarrow> ((fs1, lg1), Inl e)
             | Inr fs2 \<Rightarrow> ((fs2, update_status lg1 base_name ''Done (Saved)''), Inr ())))"

text \<open>
  Lines 386-430: the loop over the selected files. An exception of the body is caught,
  the status of the file becomes Error, and the loop goes on.
\<close>

fun run_loop ::
  "'p env \<Rightarrow> path \<Rightarrow> pyfloat \<Rightarrow> string \<Rightarrow> string \<Rightarrow> path list \<Rightarrow> filesystem \<times> status_table
     \<Rightarrow> filesystem \<times> status_table" where
  "run_loop E output_folder split_mb act clevel [] st = st"
| "run_loop E output_folder split_mb act clevel (pdf_path # rest) st =
     (case st of (fs, lg) \<Rightarrow>
      (let base_name = path_basename E pdf_path;
           lg0 = update_status lg base_name ''Processing...'' in
       case try_body E output_folder split_mb act clevel pdf_path base_name (fs, lg0) of
         (st1, Inr u) \<Rightarrow> run_loop E output_folder split_mb act clevel rest st1
       | ((fs1, lg1), Inl e) \<Rightarrow>
           run_loop E output_folder split_mb act clevel rest
             (fs1, update_status lg1 base_name ''Error'')))"

text \<open>
  Lines 372-432. \<open>size_var\<close> is the split limit as \<^verbatim>\<open>float\<close> reads it from the entry
  (\<open>None\<close>: not a number, the conversion of line 382 raises).
\<close>

datatype run_result =
  ShowError string string
  | Raised exn
  | AllTasksCompleted filesystem status_table

definition run_process ::
  "'p env \<Rightarrow> path list \<Rightarrow> path \<Rightarrow> pyfloat option \<Rightarrow> string \<Rightarrow> string
     \<Rightarrow> filesystem \<times> status_table \<Rightarrow> run_result" where
  "run_process E pdf_list output_folder size_var act clevel st =
     (if pdf_list = [] then ShowError ''Error'' ''No files selected.''
      else if output_folder = [] then ShowError ''Error'' ''Please select an output folder.''
      else
        (case size_var of
           None \<Rightarrow> Raised ValueError
         | Some split_mb \<Rightarrow>
             (case run_loop E output_folder split_mb act clevel pdf_list st of
                (fs', lg') \<Rightarrow> AllTasksCompleted fs' lg')))"

section \<open>A small environment, for running the model\<close>

text \<open>
  A page is one byte; a PDF file is the byte 37 (a percent sign) followed by its pages,
  however the document was built; saving a document without pages raises; no Ghostscript
  executable is installed; the black-and-white image of a page is 0 or 255; paths are
  written with slashes; sizes are shown in whole kilobytes.
\<close>

definition example_basename :: "path \<Rightarrow> string" where
  "example_basename p = rev (takeWhile (\<lambda>c. c \<noteq> CHR ''/'') (rev p))"

definition example_splitext :: "string \<Rightarrow> string \<times> string" where
  "example_splitext s =
     (if CHR ''.'' \<in> set s
      then (rev (tl (dropWhile (\<lambda>c. c \<noteq> CHR ''.'') (rev s))),
            CHR ''.'' # rev (takeWhile (\<lambda>c. c \<noteq> CHR ''.'') (rev s)))
      else (s, []))"

definition example_env :: "byte env" where
  "example_env =
     \<lparr>pdf_parse = (\<lambda>b. case b of [] \<Rightarrow> None | h # ps \<Rightarrow> if h = 37 then Some ps else None),
      pdf_serialize = (\<lambda>d. 37 # pages_of d),
      pdf_save_raises = (\<lambda>p d. pages_of d = []),
      ghostscript = (\<lambda>exe inp. GsRaises),
      rasterize_bw = (\<lambda>p. Some (if p < 128 then 0 else 255)),
      tempdir = ''/tmp'',
      path_join = (\<lambda>d f. d @ ''/'' @ f),
      path_basename = example_basename,
      path_splitext = example_splitext,
      unwritable = (\<lambda>p. False),
      format_kb = (\<lambda>n. str_nat (nat n div 1024) @ ''.0'')\<rparr>"

text \<open>Three files: a document of five pages, a document without pages, and a file that is no PDF.\<close>

definition example_fs :: filesystem where
  "example_fs = [''/in/a.pdf'' \<mapsto> [37, 1, 2, 3, 4, 5], ''/in/e.pdf'' \<mapsto> [37],
     ''/in/bad.pdf'' \<mapsto> [1, 2, 3]]"

text \<open>
  The same environment with a Ghostscript that exits with code 0 and writes its input
  twice: a backend whose output is larger than its input.
\<close>

definition bloating_env :: "byte env" where
  "bloating_env = example_env
     \<lparr>ghostscript := (\<lambda>exe inp.
        if exe = ''gs'' then (case inp of None \<Rightarrow> GsExit 1 None | Some b \<Rightarrow> GsExit 0 (Some (b @ b)))
        else GsRaises)\<rparr>"



text \<open>Two files of one base name in two folders: a document of two pages, and a file that is no PDF.\<close>

definition twin_fs :: filesystem where
  "twin_fs = [''/a/x.pdf'' \<mapsto> [37, 1, 2], ''/b/x.pdf'' \<mapsto> [1, 2, 3]]"

definition twin_files :: "path list" where
  "twin_files = [''/a/x.pdf'', ''/b/x.pdf'']"

section \<open>The loops of the splitter, one step at a time\<close>

lemma pages_of_temp:
  "p < length doc \<Longrightarrow> pages_of (InsertPage Blank (Opened doc) p) = [doc ! p]"
  by (simp add: Cons_nth_drop_Suc [symmetric])


lemma add_pages_end:
  "\<not> p < length doc \<Longrightarrow> add_pages E doc tp m part p fs = (fs, Inr (part, p))"
  by (subst add_pages.simps) simp

lemma add_pages_first:
  "p < length doc \<Longrightarrow> pages_of part = [] \<Longrightarrow>
   add_pages E doc tp m part p fs =
     add_pages E doc tp m (InsertPdf part (InsertPage Blank (Opened doc) p)) (p + 1) fs"
  by (subst add_pages.simps) simp

lemma add_pages_next:
  "p < length doc \<Longrightarrow> pages_of part \<noteq> [] \<Longrightarrow>
   add_pages E doc tp m part p fs =
     (case doc_save E (InsertPdf (InsertPdf Blank part) (InsertPage Blank (Opened doc) p)) tp fs of
        Inl e \<Rightarrow> (fs, Inl e)
      | Inr fs' \<Rightarrow>
          if m < get_file_size fs' tp then (fs', Inr (part, p))
          else add_pages E doc tp m (InsertPdf part (InsertPage Blank (Opened doc) p)) (p + 1) fs')"
  by (subst add_pages.simps) (simp add: Let_def split: sum.splits prod.splits)

lemma split_loop_end:
  "\<not> start < length doc \<Longrightarrow>
   split_loop E doc folder base m start i outs fs = (fs, Inr outs)"
  by (subst split_loop.simps) simp

lemma split_loop_step:
  "start < length doc \<Longrightarrow>
   split_loop E doc folder base m start i outs fs =
     (case add_pages E doc (path_join E (tempdir E) (''__trial_'' @ base @ ''.pdf'')) m Blank start fs of
        (fs1, Inl e) \<Rightarrow> (fs1, Inl e)
      | (fs1, Inr (part_doc, p)) \<Rightarrow>
          (case doc_save E part_doc
                  (path_join E folder (base @ ''_part'' @ str_nat i @ ''.pdf'')) fs1 of
             Inl e \<Rightarrow> (fs1, Inl e)
           | Inr fs2 \<Rightarrow>
               split_loop E doc folder base m p (i + 1)
                 (outs @ [(path_join E folder (base @ ''_part'' @ str_nat i @ ''.pdf''), part_doc)])
                 fs2))"
  by (subst split_loop.simps) (simp add: Let_def split: sum.splits prod.splits)

lemma doc_save_Inr:
  "doc_save E d p fs = Inr fs' \<Longrightarrow> fs' = fs(p \<mapsto> pdf_serialize E d)"
  by (simp add: doc_save_def split: if_splits)

lemma get_file_size_upd:
  "get_file_size (fs(p \<mapsto> b)) p = int (length b)"
  by (simp add: get_file_size_def)

lemma add_pages_result:
  "add_pages E doc tp m part p fs = (fs', Inr (part', p')) \<Longrightarrow> p \<le> length doc \<Longrightarrow>
   p \<le> p' \<and> p' \<le> length doc \<and> pages_of part' = pages_of part @ take (p' - p) (drop p doc) \<and>
   (pages_of part = [] \<and> p < length doc \<longrightarrow> p < p')"
proof (induction E doc tp m part p fs rule: add_pages.induct)
  case (1 E doc tp m part p fs)
  let ?temp = "InsertPage Blank (Opened doc) p"
  show ?case
  proof (cases "p < length doc")
    case False
    with "1.prems" show ?thesis by (simp add: add_pages_end)
  next
    case inb: True
    have grow: "pages_of part @ take (p' - p) (drop p doc) =
        pages_of (InsertPdf part ?temp) @ take (p' - (p + 1)) (drop (p + 1) doc)"
      if "p + 1 \<le> p'"
    proof -
      from that have "p' - p = Suc (p' - (p + 1))" by simp
      moreover from inb have "drop p doc = doc ! p # drop (p + 1) doc"
        by (simp add: Cons_nth_drop_Suc)
      ultimately show ?thesis using inb by (simp add: pages_of_temp del: pages_of.simps(4))
    qed
    from inb have next_le: "p + 1 \<le> length doc" by simp
    show ?thesis
    proof (cases "pages_of part = []")
      case True
      with inb "1.prems"(1)
      have run: "add_pages E doc tp m (InsertPdf part ?temp) (p + 1) fs = (fs', Inr (part', p'))"
        by (simp add: add_pages_first)
      from "1.IH"(1) [OF inb refl _ run next_le] True
      have ih: "p + 1 \<le> p'" "p' \<le> length doc"
        "pages_of part' = pages_of (InsertPdf part ?temp) @ take (p' - (p + 1)) (drop (p + 1) doc)"
        by simp_all
      with grow [OF ih(1)] show ?thesis by simp
    next
      case ne: False
      show ?thesis
      proof (cases "doc_save E (InsertPdf (InsertPdf Blank part) ?temp) tp fs")
        case (Inl e)
        with inb ne "1.prems"(1) show ?thesis by (simp add: add_pages_next)
      next
        case (Inr b)
        show ?thesis
        proof (cases "m < get_file_size b tp")
          case True
          with Inr inb ne "1.prems" show ?thesis by (simp add: add_pages_next)
        next
          case False
          with Inr inb ne "1.prems"(1)
          have run: "add_pages E doc tp m (InsertPdf part ?temp) (p + 1) b = (fs', Inr (part', p'))"
            by (simp add: add_pages_next)
          from "1.IH"(2) [OF inb refl _ refl Inr refl False run next_le] ne
          have ih: "p + 1 \<le> p'" "p' \<le> length doc"
            "pages_of part' = pages_of (InsertPdf part ?temp) @ take (p' - (p + 1)) (drop (p + 1) doc)"
            by simp_all
          with grow [OF ih(1)] ne show ?thesis by simp
        qed
      qed
    qed
  qed
qed

lemma add_pages_trial:
  "add_pages E doc tp m part p fs = (fs', Inr (part', p')) \<Longrightarrow>
   (2 \<le> length (pages_of part) \<longrightarrow> int (length (pdf_serialize E (trial_of part))) \<le> m) \<Longrightarrow>
   2 \<le> length (pages_of part') \<longrightarrow> int (length (pdf_serialize E (trial_of part'))) \<le> m"
proof (induction E doc tp m part p fs rule: add_pages.induct)
  case (1 E doc tp m part p fs)
  let ?temp = "InsertPage Blank (Opened doc) p"
  show ?case
  proof (cases "p < length doc")
    case False
    with "1.prems" show ?thesis by (simp add: add_pages_end)
  next
    case inb: True
    show ?thesis
    proof (cases "pages_of part = []")
      case True
      with inb "1.prems"(1)
      have run: "add_pages E doc tp m (InsertPdf part ?temp) (p + 1) fs = (fs', Inr (part', p'))"
        by (simp add: add_pages_first)
      from True inb have "length (pages_of (InsertPdf part ?temp)) = 1"
        by (simp add: pages_of_temp del: pages_of.simps(4))
      then show ?thesis
        by (intro "1.IH"(1) [OF inb refl _ run]) (simp_all add: True)
    next
      case ne: False
      show ?thesis
      proof (cases "doc_save E (InsertPdf (InsertPdf Blank part) ?temp) tp fs")
        case (Inl e)
        with inb ne "1.prems"(1) show ?thesis by (simp add: add_pages_next)
      next
        case (Inr b)
        show ?thesis
        proof (cases "m < get_file_size b tp")
          case True
          with Inr inb ne "1.prems" show ?thesis by (simp add: add_pages_next)
        next
          case False
          with Inr inb ne "1.prems"(1)
          have run: "add_pages E doc tp m (InsertPdf part ?temp) (p + 1) b = (fs', Inr (part', p'))"
            by (simp add: add_pages_next)
          from False doc_save_Inr [OF Inr]
          have "int (length (pdf_serialize E (trial_of (InsertPdf part ?temp)))) \<le> m"
            by (simp add: get_file_size_upd)
          with ne show ?thesis
            by (intro "1.IH"(2) [OF inb refl _ refl Inr refl False run]) simp_all
        qed
      qed
    qed
  qed
qed

lemma split_loop_result:
  "split_loop E doc folder base m start i outs fs = (fs', Inr outs') \<Longrightarrow>
   start \<le> length doc \<Longrightarrow>
   concat (map (\<lambda>x. pages_of (snd x)) outs') =
     concat (map (\<lambda>x. pages_of (snd x)) outs) @ drop start doc \<and>
   length outs' + start \<le> length outs + length doc \<and>
   (\<forall>x \<in> set outs'. x \<in> set outs \<or>
      pages_of (snd x) \<noteq> [] \<and>
      (2 \<le> length (pages_of (snd x)) \<longrightarrow>
         int (length (pdf_serialize E (trial_of (snd x)))) \<le> m))"
proof (induction E doc folder base m start i outs fs rule: split_loop.induct)
  case (1 E doc folder base m start i outs fs)
  let ?tp = "path_join E (tempdir E) (''__trial_'' @ base @ ''.pdf'')"
  let ?out = "path_join E folder (base @ ''_part'' @ str_nat i @ ''.pdf'')"
  show ?case
  proof (cases "start < length doc")
    case False
    with "1.prems" show ?thesis by (simp add: split_loop_end)
  next
    case inb: True
    obtain fs1 r where ap: "add_pages E doc ?tp m Blank start fs = (fs1, r)"
      by (cases "add_pages E doc ?tp m Blank start fs") auto
    show ?thesis
    proof (cases r)
      case (Inl e)
      with inb ap "1.prems"(1) show ?thesis by (simp add: split_loop_step)
    next
      case (Inr b)
      obtain part p where b: "b = (part, p)" by (cases b) auto
      from ap Inr b have ap': "add_pages E doc ?tp m Blank start fs = (fs1, Inr (part, p))"
        by simp
      from add_pages_result [OF ap'] inb
      have p: "start < p" "p \<le> length doc"
        and part: "pages_of part = take (p - start) (drop start doc)"
        by simp_all
      from add_pages_trial [OF ap']
      have fits: "2 \<le> length (pages_of part) \<longrightarrow>
          int (length (pdf_serialize E (trial_of part))) \<le> m"
        by simp
      from p inb part have ne: "pages_of part \<noteq> []" by simp
      show ?thesis
      proof (cases "doc_save E part ?out fs1")
        case (Inl e)
        with inb ap' "1.prems"(1) show ?thesis by (simp add: split_loop_step)
      next
        case save: (Inr fs2)
        with inb ap' "1.prems"(1)
        have run: "split_loop E doc folder base m p (i + 1) (outs @ [(?out, part)]) fs2
                     = (fs', Inr outs')"
          by (simp add: split_loop_step)
        from ap Inr have ap_sym: "(fs1, r) = add_pages E doc ?tp m Blank start fs" by simp
        note ih = "1.IH" [OF inb ap_sym Inr b [symmetric] refl save run p(2)]
        from p have "drop p doc = drop (p - start) (drop start doc)" by simp
        with part have "pages_of part @ drop p doc = drop start doc"
          by (simp only: append_take_drop_id)
        with ih have c1: "concat (map (\<lambda>x. pages_of (snd x)) outs') =
            concat (map (\<lambda>x. pages_of (snd x)) outs) @ drop start doc"
          by simp
        from ih p have c2: "length outs' + start \<le> length outs + length doc" by simp
        from ih ne fits
        have c3: "\<forall>x \<in> set outs'. x \<in> set outs \<or>
            pages_of (snd x) \<noteq> [] \<and>
            (2 \<le> length (pages_of (snd x)) \<longrightarrow>
               int (length (pdf_serialize E (trial_of (snd x)))) \<le> m)"
          by auto
        from c1 c2 c3 show ?thesis by blast
      qed
    qed
  qed
qed



lemma split_pdf_eq:
  "fitz_open E fs pdf_path = Inr doc \<Longrightarrow>
   split_pdf E pdf_path folder base m fs = split_loop E doc folder base m 0 1 [] fs"
  by (simp add: split_pdf_def)

section \<open>The splitter partitions the document\<close>

text \<open>
  C1. Whatever the budget, when \<^verbatim>\<open>split_pdf\<close> returns, the parts it saved, concatenated in
  the order they were emitted, are the pages 0, 1, ..., N - 1 of the source document in
  that order: no page is dropped, duplicated or moved.
\<close>

theorem split_pdf_partition:
  assumes "fitz_open E fs pdf_path = Inr doc"
    and "split_pdf E pdf_path output_folder base_name max_size_bytes fs = (fs', Inr outputs)"
  shows "concat (map (\<lambda>(out_path, part_doc). pages_of part_doc) outputs) =
           map (\<lambda>i. doc ! i) [0..<length doc]"
proof -
  from assms have "split_loop E doc output_folder base_name max_size_bytes 0 1 [] fs
      = (fs', Inr outputs)"
    by (simp add: split_pdf_eq)
  from split_loop_result [OF this]
  have "concat (map (\<lambda>x. pages_of (snd x)) outputs) = doc" by simp
  then show ?thesis by (simp add: map_nth case_prod_unfold)
qed

lemma example_open: "fitz_open example_env example_fs ''/in/a.pdf'' = Inr [1, 2, 3, 4, 5]"
  by (simp add: fitz_open_def example_env_def example_fs_def)

lemma example_split:
  "map_sum id parts_of (snd (split_pdf example_env ''/in/a.pdf'' ''/out'' ''a'' 3 example_fs)) =
     Inr [(''/out/a_part1.pdf'', [1, 2]), (''/out/a_part2.pdf'', [3, 4]),
          (''/out/a_part3.pdf'', [5])]"
  by code_simp

lemma returned_parts:
  "map_sum id parts_of (snd run) = Inr parts \<Longrightarrow>
   run = (fst run, Inr (projr (snd run))) \<and> parts_of (projr (snd run)) = parts"
  by (cases run; cases "snd run") auto

theorem split_pdf_partition_witness:
  "fitz_open example_env example_fs ''/in/a.pdf'' = Inr [1, 2, 3, 4, 5] \<and>
   map_sum id parts_of (snd (split_pdf example_env ''/in/a.pdf'' ''/out'' ''a'' 3 example_fs)) =
     Inr [(''/out/a_part1.pdf'', [1, 2]), (''/out/a_part2.pdf'', [3, 4]),
          (''/out/a_part3.pdf'', [5])] \<and>
   concat (map (\<lambda>(out_path, part_doc). pages_of part_doc)
      (projr (snd (split_pdf example_env ''/in/a.pdf'' ''/out'' ''a'' 3 example_fs)))) =
     map (\<lambda>i. [1, 2, 3, 4, 5] ! i) [0..<length [1, 2, 3, 4, 5 :: byte]]"
proof -
  note run = returned_parts [OF example_split, THEN conjunct1]
  from split_pdf_partition [OF example_open run] example_open example_split
  show ?thesis by simp
qed

section \<open>What the budget bounds: the trial file, not the part\<close>






section \<open>The cursor advances and the loop ends within N iterations\<close>

text \<open>
  C3. One iteration of the outer loop, started at a cursor below the end, moves the
  cursor forward by at least one page: the page at the cursor is added to the new part
  without any size check, whatever the budget. Both loops are total functions (their
  termination is proved where they are defined), and a run of \<^verbatim>\<open>split_pdf\<close> that returns
  has made at most N iterations of the outer loop, one for each part.
\<close>

theorem split_pdf_progress:
  "(start < length doc \<and>
    add_pages E doc trial_path max_size_bytes Blank start fs = (fs_inner, Inr (part_doc, p)) \<longrightarrow>
      start < p \<and> p \<le> length doc \<and>
      pages_of part_doc = doc ! start # take (p - start - 1) (drop (start + 1) doc)) \<and>
   (fitz_open E fs pdf_path = Inr doc \<and>
    split_pdf E pdf_path output_folder base_name max_size_bytes fs = (fs', Inr outputs) \<longrightarrow>
      length outputs \<le> length doc)"
proof (intro conjI impI)
  assume a: "start < length doc \<and>
    add_pages E doc trial_path max_size_bytes Blank start fs = (fs_inner, Inr (part_doc, p))"
  then have run: "add_pages E doc trial_path max_size_bytes Blank start fs = (fs_inner, Inr (part_doc, p))"
    and inb: "start < length doc"
    by simp_all
  from add_pages_result [OF run] inb
  have adv: "start < p" and le: "p \<le> length doc"
    and part: "pages_of part_doc = take (p - start) (drop start doc)"
    by simp_all
  from adv show "start < p" .
  from le show "p \<le> length doc" .
  from adv have "p - start = Suc (p - start - 1)" by simp
  moreover from inb have "drop start doc = doc ! start # drop (start + 1) doc"
    by (simp add: Cons_nth_drop_Suc)
  ultimately show "pages_of part_doc = doc ! start # take (p - start - 1) (drop (start + 1) doc)"
    using part by simp
next
  assume "fitz_open E fs pdf_path = Inr doc \<and>
    split_pdf E pdf_path output_folder base_name max_size_bytes fs = (fs', Inr outputs)"
  then have opened: "fitz_open E fs pdf_path = Inr doc"
    and "split_pdf E pdf_path output_folder base_name max_size_bytes fs = (fs', Inr outputs)"
    by simp_all
  then have "split_loop E doc output_folder base_name max_size_bytes 0 1 [] fs
      = (fs', Inr outputs)"
    by (simp only: split_pdf_eq [OF opened])
  from split_loop_result [OF this] show "length outputs \<le> length doc" by simp
qed

lemma example_add_pages:
  "snd (add_pages example_env [1, 2, 3, 4, 5] ''/tmp/__trial_a.pdf'' 0 Blank 2 example_fs) =
     Inr (InsertPdf Blank (InsertPage Blank (Opened [1, 2, 3, 4, 5]) 2), 3)"
  by code_simp

lemma example_split_tiny:
  "map_sum id parts_of (snd (split_pdf example_env ''/in/a.pdf'' ''/out'' ''a'' 0 example_fs)) =
     Inr [(''/out/a_part1.pdf'', [1]), (''/out/a_part2.pdf'', [2]),
          (''/out/a_part3.pdf'', [3]), (''/out/a_part4.pdf'', [4]),
          (''/out/a_part5.pdf'', [5])]"
  by code_simp

theorem split_pdf_progress_witness:
  "snd (add_pages example_env [1, 2, 3, 4, 5] ''/tmp/__trial_a.pdf'' 0 Blank 2 example_fs) =
     Inr (InsertPdf Blank (InsertPage Blank (Opened [1, 2, 3, 4, 5]) 2), 3) \<and>
   (2 :: nat) < 3 \<and> (3 :: nat) \<le> length [1, 2, 3, 4, 5 :: byte] \<and>
   pages_of (InsertPdf Blank (InsertPage Blank (Opened [1, 2, 3, 4, 5 :: byte]) 2)) = [3] \<and>
   0 < int (length (pdf_serialize example_env
         (InsertPdf Blank (InsertPage Blank (Opened [1, 2, 3, 4, 5]) 2)))) \<and>
   map_sum id parts_of (snd (split_pdf example_env ''/in/a.pdf'' ''/out'' ''a'' 0 example_fs)) =
     Inr [(''/out/a_part1.pdf'', [1]), (''/out/a_part2.pdf'', [2]),
          (''/out/a_part3.pdf'', [3]), (''/out/a_part4.pdf'', [4]),
          (''/out/a_part5.pdf'', [5])] \<and>
   length (projr (snd (split_pdf example_env ''/in/a.pdf'' ''/out'' ''a'' 0 example_fs)))
     \<le> length [1, 2, 3, 4, 5 :: byte]"
proof -
  let ?inner = "add_pages example_env [1, 2, 3, 4, 5] ''/tmp/__trial_a.pdf'' 0 Blank 2 example_fs"
  let ?outer = "split_pdf example_env ''/in/a.pdf'' ''/out'' ''a'' 0 example_fs"
  have inner: "?inner =
      (fst ?inner, Inr (InsertPdf Blank (InsertPage Blank (Opened [1, 2, 3, 4, 5]) 2), 3))"
    using example_add_pages by (simp add: prod_eq_iff)
  note outer = returned_parts [OF example_split_tiny, THEN conjunct1]
  have size: "0 < int (length (pdf_serialize example_env
         (InsertPdf Blank (InsertPage Blank (Opened [1, 2, 3, 4, 5]) 2))))"
    by (simp add: example_env_def)
  from split_pdf_progress [where start = 2 and doc = "[1, 2, 3, 4, 5]" and E = example_env
      and trial_path = "''/tmp/__trial_a.pdf''" and max_size_bytes = 0 and fs = example_fs
      and part_doc = "InsertPdf Blank (InsertPage Blank (Opened [1, 2, 3, 4, 5]) 2)" and p = 3
      and pdf_path = "''/in/a.pdf''" and output_folder = "''/out''" and base_name = "''a''"
      and fs_inner = "fst ?inner" and fs' = "fst ?outer" and outputs = "projr (snd ?outer)"]
    inner outer example_open example_add_pages example_split_tiny size
  show ?thesis by simp
qed

section \<open>A document without pages\<close>

text \<open>
  C10. For a source document of zero pages \<^verbatim>\<open>split_pdf\<close> returns the empty list and leaves
  the file system as it is: the outer loop is not entered and no file is written.
\<close>

theorem split_pdf_zero_pages:
  assumes "fitz_open E fs pdf_path = Inr []"
  shows "split_pdf E pdf_path output_folder base_name max_size_bytes fs = (fs, Inr [])"
  using assms by (simp add: split_pdf_eq split_loop_end)

theorem split_pdf_zero_pages_witness:
  "fitz_open example_env example_fs ''/in/e.pdf'' = Inr [] \<and>
   split_pdf example_env ''/in/e.pdf'' ''/out'' ''e'' 3 example_fs = (example_fs, Inr [])"
proof -
  have empty: "fitz_open example_env example_fs ''/in/e.pdf'' = Inr []"
    by (simp add: fitz_open_def example_env_def example_fs_def)
  from split_pdf_zero_pages [OF empty] empty show ?thesis by simp
qed

section \<open>What the compression block reads and writes\<close>

lemma gs_loop_frame:
  "gs_loop E exes pdf_path output_path fs = (fs', success) \<Longrightarrow> q \<noteq> output_path \<Longrightarrow> fs' q = fs q"
proof (induction exes arbitrary: fs)
  case Nil
  then show ?case by simp
next
  case (Cons gs_exe rest)
  show ?case
  proof (cases "ghostscript E gs_exe (fs pdf_path)")
    case GsRaises
    with Cons.prems have "gs_loop E rest pdf_path output_path fs = (fs', success)" by simp
    from Cons.IH [OF this Cons.prems(2)] show ?thesis .
  next
    case (GsExit ret written)
    define fs1 where "fs1 = (case written of None \<Rightarrow> fs | Some b \<Rightarrow> fs(output_path \<mapsto> b))"
    from Cons.prems(2) have same: "fs1 q = fs q"
      by (simp add: fs1_def split: option.splits)
    show ?thesis
    proof (cases "ret = 0 \<and> path_exists fs1 output_path \<and> 0 < get_file_size fs1 output_path")
      case True
      with GsExit Cons.prems(1) have "fs' = fs1" by (simp add: fs1_def Let_def)
      with same show ?thesis by simp
    next
      case False
      with GsExit Cons.prems(1) have "gs_loop E rest pdf_path output_path fs1 = (fs', success)"
        by (auto simp: fs1_def Let_def split: if_splits)
      from Cons.IH [OF this Cons.prems(2)] same show ?thesis by simp
    qed
  qed
qed

lemma compress_pymupdf_optimize_frame:
  "compress_pymupdf_optimize E pdf_path output_path fs = (fs', success) \<Longrightarrow>
   q \<noteq> output_path \<Longrightarrow> fs' q = fs q"
  by (auto simp: compress_pymupdf_optimize_def doc_save_def split: sum.splits if_splits)

lemma compress_binary_bw_frame:
  "compress_binary_bw E pdf_path output_path fs = (fs', success) \<Longrightarrow>
   q \<noteq> output_path \<Longrightarrow> fs' q = fs q"
  by (auto simp: compress_binary_bw_def doc_save_def split: sum.splits option.splits if_splits)

lemma run_strategies_frame:
  assumes "run_strategies E clevel pdf_path temp_comp fs = (fs', success)"
    and "q \<noteq> temp_comp"
  shows "fs' q = fs q"
proof (cases "clevel = ''Extreme (B&W)''")
  case True
  with assms(1) have "compress_binary_bw E pdf_path temp_comp fs = (fs', success)"
    by (simp add: run_strategies_def)
  from compress_binary_bw_frame [OF this assms(2)] show ?thesis .
next
  case ne: False
  show ?thesis
  proof (cases "clevel = ''Standard (GS)''")
    case False
    with ne assms(1) show ?thesis by (simp add: run_strategies_def)
  next
    case True
    obtain fs1 s1 where gs: "compress_standard_gs E pdf_path temp_comp fs = (fs1, s1)"
      by (cases "compress_standard_gs E pdf_path temp_comp fs") auto
    then have f1: "fs1 q = fs q"
      using gs_loop_frame [of E gs_commands pdf_path temp_comp fs fs1 s1 q] assms(2)
      by (simp add: compress_standard_gs_def)
    show ?thesis
    proof (cases s1)
      case True
      with gs \<open>clevel = ''Standard (GS)''\<close> assms(1) have "fs' = fs1"
        by (simp add: run_strategies_def)
      with f1 show ?thesis by simp
    next
      case False
      with gs \<open>clevel = ''Standard (GS)''\<close> assms(1)
      have "compress_pymupdf_optimize E pdf_path temp_comp fs1 = (fs', success)"
        by (simp add: run_strategies_def)
      from compress_pymupdf_optimize_frame [OF this assms(2)] f1 show ?thesis by simp
    qed
  qed
qed

lemma compress_block_off:
  "act \<noteq> ''Compress Only'' \<Longrightarrow> act \<noteq> ''Compress + Split'' \<Longrightarrow>
   compress_block E act clevel base_name pdf_path temp_comp (fs, lg) = ((fs, lg), pdf_path)"
  by (simp add: compress_block_def)

lemma compress_block_on:
  "act = ''Compress Only'' \<or> act = ''Compress + Split'' \<Longrightarrow>
   run_strategies E clevel pdf_path temp_comp fs = (fs1, success) \<Longrightarrow>
   compress_block E act clevel base_name pdf_path temp_comp (fs, lg) =
     ((fs1, update_status lg base_name (''Compressing ('' @ clevel @ '')...'')),
      if success \<and> path_exists fs1 temp_comp \<and> 0 < get_file_size fs1 temp_comp
      then temp_comp else pdf_path)"
  by (simp add: compress_block_def Let_def)


lemma fitz_open_rasterize [simp]:
  "fitz_open (E\<lparr>rasterize_bw := r\<rparr>) fs p = fitz_open E fs p"
  by (simp add: fitz_open_def split: option.splits)

lemma doc_save_rasterize [simp]:
  "doc_save (E\<lparr>rasterize_bw := r\<rparr>) d p fs = doc_save E d p fs"
  by (simp add: doc_save_def)

lemma gs_loop_rasterize:
  "gs_loop (E\<lparr>rasterize_bw := r\<rparr>) exes pdf_path output_path fs =
   gs_loop E exes pdf_path output_path fs"
  by (induction exes arbitrary: fs) (simp_all add: Let_def split: gs_result.splits)

lemma add_pages_rasterize:
  "add_pages (E\<lparr>rasterize_bw := r\<rparr>) doc tp m part p fs = add_pages E doc tp m part p fs"
proof (induction E doc tp m part p fs rule: add_pages.induct)
  case (1 E doc tp m part p fs)
  let ?temp = "InsertPage Blank (Opened doc) p"
  show ?case
  proof (cases "p < length doc")
    case False
    then show ?thesis by (simp add: add_pages_end)
  next
    case inb: True
    show ?thesis
    proof (cases "pages_of part = []")
      case True
      with inb "1.IH"(1) [OF inb refl] show ?thesis by (simp add: add_pages_first)
    next
      case ne: False
      show ?thesis
      proof (cases "doc_save E (InsertPdf (InsertPdf Blank part) ?temp) tp fs")
        case (Inl e)
        with inb ne show ?thesis by (simp add: add_pages_next)
      next
        case (Inr b)
        show ?thesis
        proof (cases "m < get_file_size b tp")
          case True
          with Inr inb ne show ?thesis by (simp add: add_pages_next)
        next
          case False
          with Inr inb ne "1.IH"(2) [OF inb refl _ refl Inr refl False]
          show ?thesis by (simp add: add_pages_next)
        qed
      qed
    qed
  qed
qed

lemma split_loop_rasterize:
  "split_loop (E\<lparr>rasterize_bw := r\<rparr>) doc folder base m start i outs fs =
   split_loop E doc folder base m start i outs fs"
proof (induction E doc folder base m start i outs fs rule: split_loop.induct)
  case (1 E doc folder base m start i outs fs)
  let ?tp = "path_join E (tempdir E) (''__trial_'' @ base @ ''.pdf'')"
  let ?out = "path_join E folder (base @ ''_part'' @ str_nat i @ ''.pdf'')"
  show ?case
  proof (cases "start < length doc")
    case False
    then show ?thesis by (simp add: split_loop_end)
  next
    case inb: True
    obtain fs1 res where ap: "add_pages E doc ?tp m Blank start fs = (fs1, res)"
      by (cases "add_pages E doc ?tp m Blank start fs") auto
    show ?thesis
    proof (cases res)
      case (Inl e)
      with inb ap show ?thesis by (simp add: split_loop_step add_pages_rasterize)
    next
      case (Inr b)
      obtain part p where b: "b = (part, p)" by (cases b) auto
      show ?thesis
      proof (cases "doc_save E part ?out fs1")
        case (Inl e)
        with inb ap Inr b show ?thesis by (simp add: split_loop_step add_pages_rasterize)
      next
        case save: (Inr fs2)
        from ap have ap_sym: "(fs1, res) = add_pages E doc ?tp m Blank start fs" by simp
        from "1.IH" [OF inb ap_sym Inr b [symmetric] refl save] inb ap Inr b save
        show ?thesis by (simp add: split_loop_step add_pages_rasterize)
      qed
    qed
  qed
qed

lemma split_pdf_rasterize:
  "split_pdf (E\<lparr>rasterize_bw := r\<rparr>) pdf_path folder base m fs = split_pdf E pdf_path folder base m fs"
  by (simp add: split_pdf_def split_loop_rasterize split: sum.splits)

lemma run_strategies_standard:
  "run_strategies E ''Standard (GS)'' pdf_path temp_comp fs =
     (case compress_standard_gs E pdf_path temp_comp fs of
        (fs1, success) \<Rightarrow>
          if success then (fs1, True) else compress_pymupdf_optimize E pdf_path temp_comp fs1)"
  by (simp add: run_strategies_def split: prod.splits)

lemma compress_pymupdf_optimize_rasterize:
  "compress_pymupdf_optimize (E\<lparr>rasterize_bw := r\<rparr>) pdf_path output_path fs =
   compress_pymupdf_optimize E pdf_path output_path fs"
  unfolding compress_pymupdf_optimize_def fitz_open_rasterize doc_save_rasterize ..

lemma run_strategies_standard_rasterize:
  "run_strategies (E\<lparr>rasterize_bw := r\<rparr>) ''Standard (GS)'' pdf_path temp_comp fs =
   run_strategies E ''Standard (GS)'' pdf_path temp_comp fs"
  unfolding run_strategies_standard compress_standard_gs_def gs_loop_rasterize
    compress_pymupdf_optimize_rasterize ..

lemma compress_block_standard_rasterize:
  "compress_block (E\<lparr>rasterize_bw := r\<rparr>) act ''Standard (GS)'' base_name pdf_path temp_comp st =
   compress_block E act ''Standard (GS)'' base_name pdf_path temp_comp st"
  unfolding compress_block_def run_strategies_standard_rasterize ..

lemma shutil_rasterize [simp]:
  "shutil_move (E\<lparr>rasterize_bw := r\<rparr>) fs src dst = shutil_move E fs src dst"
  "shutil_copy (E\<lparr>rasterize_bw := r\<rparr>) fs src dst = shutil_copy E fs src dst"
  by (simp_all add: shutil_move_def shutil_copy_def split: option.splits)

lemma try_body_standard_rasterize:
  "try_body (E\<lparr>rasterize_bw := r\<rparr>) output_folder split_mb act ''Standard (GS)'' pdf_path base_name st =
   try_body E output_folder split_mb act ''Standard (GS)'' pdf_path base_name st"
  unfolding try_body_def compress_block_standard_rasterize split_pdf_rasterize shutil_rasterize
  by simp

section \<open>The Standard level falls back to container optimization, never to binarization\<close>

text \<open>
  C4. At the level Standard, when the Ghostscript strategy has failed (no executable
  runs, or none exits with code 0 and a non-empty output), the container-optimization
  strategy is attempted on the files Ghostscript left, and its result is the result of
  the compression; when it succeeds and its output file is not empty, that file becomes
  the working source. The binarization strategy is not invoked at this level: the whole
  processing of a file is the same whatever the binarization of a page does.
\<close>

theorem standard_level_falls_back_to_optimization:
  "(compress_standard_gs E pdf_path temp_comp fs = (fs1, False) \<longrightarrow>
      run_strategies E ''Standard (GS)'' pdf_path temp_comp fs =
        compress_pymupdf_optimize E pdf_path temp_comp fs1 \<and>
      (compress_pymupdf_optimize E pdf_path temp_comp fs1 = (fs2, True) \<and>
       0 < get_file_size fs2 temp_comp \<and>
       (act = ''Compress Only'' \<or> act = ''Compress + Split'') \<longrightarrow>
         compress_block E act ''Standard (GS)'' base_name pdf_path temp_comp (fs, lg) =
           ((fs2, update_status lg base_name ''Compressing (Standard (GS))...''), temp_comp))) \<and>
   try_body (E\<lparr>rasterize_bw := r\<rparr>) output_folder split_mb act ''Standard (GS)''
       pdf_path base_name st =
     try_body E output_folder split_mb act ''Standard (GS)'' pdf_path base_name st"
proof (intro conjI impI)
  assume gs: "compress_standard_gs E pdf_path temp_comp fs = (fs1, False)"
  then show chain: "run_strategies E ''Standard (GS)'' pdf_path temp_comp fs =
      compress_pymupdf_optimize E pdf_path temp_comp fs1"
    by (simp add: run_strategies_standard)
  assume opt: "compress_pymupdf_optimize E pdf_path temp_comp fs1 = (fs2, True) \<and>
       0 < get_file_size fs2 temp_comp \<and>
       (act = ''Compress Only'' \<or> act = ''Compress + Split'')"
  then have run: "run_strategies E ''Standard (GS)'' pdf_path temp_comp fs = (fs2, True)"
    using chain by simp
  from opt have size: "0 < get_file_size fs2 temp_comp"
    and mode: "act = ''Compress Only'' \<or> act = ''Compress + Split''"
    by simp_all
  from size have "path_exists fs2 temp_comp"
    by (auto simp: get_file_size_def path_exists_def split: option.splits)
  with size compress_block_on [OF mode run, of base_name lg]
  show "compress_block E act ''Standard (GS)'' base_name pdf_path temp_comp (fs, lg) =
      ((fs2, update_status lg base_name ''Compressing (Standard (GS))...''), temp_comp)"
    by simp
next
  show "try_body (E\<lparr>rasterize_bw := r\<rparr>) output_folder split_mb act ''Standard (GS)''
       pdf_path base_name st =
     try_body E output_folder split_mb act ''Standard (GS)'' pdf_path base_name st"
    by (rule try_body_standard_rasterize)
qed

lemma example_gs_unavailable:
  "compress_standard_gs example_env pdf_path temp_comp fs = (fs, False)"
  by (simp add: compress_standard_gs_def gs_commands_def example_env_def)

lemma example_optimize:
  "compress_pymupdf_optimize example_env ''/in/a.pdf'' ''/tmp/a_comp_temp.pdf'' example_fs =
     (example_fs(''/tmp/a_comp_temp.pdf'' \<mapsto> [37, 1, 2, 3, 4, 5]), True)"
  by (simp add: compress_pymupdf_optimize_def example_open)
     (simp add: doc_save_def example_env_def)

theorem standard_level_falls_back_to_optimization_witness:
  "compress_standard_gs example_env ''/in/a.pdf'' ''/tmp/a_comp_temp.pdf'' example_fs =
     (example_fs, False) \<and>
   compress_pymupdf_optimize example_env ''/in/a.pdf'' ''/tmp/a_comp_temp.pdf'' example_fs =
     (example_fs(''/tmp/a_comp_temp.pdf'' \<mapsto> [37, 1, 2, 3, 4, 5]), True) \<and>
   0 < get_file_size (example_fs(''/tmp/a_comp_temp.pdf'' \<mapsto> [37, 1, 2, 3, 4, 5]))
         ''/tmp/a_comp_temp.pdf'' \<and>
   run_strategies example_env ''Standard (GS)'' ''/in/a.pdf'' ''/tmp/a_comp_temp.pdf'' example_fs =
     (example_fs(''/tmp/a_comp_temp.pdf'' \<mapsto> [37, 1, 2, 3, 4, 5]), True) \<and>
   compress_block example_env ''Compress + Split'' ''Standard (GS)'' ''a.pdf'' ''/in/a.pdf''
       ''/tmp/a_comp_temp.pdf'' (example_fs, [(''a.pdf'', ''0.0'', ''Pending'')]) =
     ((example_fs(''/tmp/a_comp_temp.pdf'' \<mapsto> [37, 1, 2, 3, 4, 5]),
       [(''a.pdf'', ''0.0'', ''Compressing (Standard (GS))...'')]), ''/tmp/a_comp_temp.pdf'')"
proof -
  have size: "0 < get_file_size (example_fs(''/tmp/a_comp_temp.pdf'' \<mapsto> [37, 1, 2, 3, 4, 5]))
         ''/tmp/a_comp_temp.pdf''"
    by (simp add: get_file_size_def)
  from standard_level_falls_back_to_optimization
    [where E = example_env and pdf_path = "''/in/a.pdf''"
      and temp_comp = "''/tmp/a_comp_temp.pdf''" and fs = example_fs and ?fs1.0 = example_fs
      and ?fs2.0 = "example_fs(''/tmp/a_comp_temp.pdf'' \<mapsto> [37, 1, 2, 3, 4, 5])"
      and act = "''Compress + Split''" and base_name = "''a.pdf''"
      and lg = "[(''a.pdf'', ''0.0'', ''Pending'')]"]
    example_gs_unavailable example_optimize size
  show ?thesis by simp
qed


section \<open>When every strategy fails, the original is what is written\<close>

lemma str_in_compress_only [simp]: "\<not> str_in ''Split'' ''Compress Only''"
  by simp

lemma shutil_copy_ok:
  "fs src = Some b \<Longrightarrow> src \<noteq> dst \<Longrightarrow> \<not> unwritable E dst \<Longrightarrow>
   shutil_copy E fs src dst = Inr (fs(dst \<mapsto> b))"
  by (simp add: shutil_copy_def)

lemma shutil_move_ok:
  "fs src = Some b \<Longrightarrow> src \<noteq> dst \<Longrightarrow> \<not> unwritable E dst \<Longrightarrow>
   shutil_move E fs src dst = Inr ((fs(dst \<mapsto> b))(src := None))"
  by (simp add: shutil_move_def)

lemma try_body_save:
  assumes "\<not> str_in ''Split'' act"
    and "compress_block E act clevel base_name pdf_path
           (path_join E (tempdir E) (fst (path_splitext E base_name) @ ''_comp_temp.pdf'')) st
         = ((fs1, lg1), current_source)"
  shows "try_body E output_folder split_mb act clevel pdf_path base_name st =
     (case (if current_source \<noteq> pdf_path
            then shutil_move E fs1 current_source
                   (path_join E output_folder (fst (path_splitext E base_name) @ ''_processed.pdf''))
            else shutil_copy E fs1 pdf_path
                   (path_join E output_folder (fst (path_splitext E base_name) @ ''_processed.pdf''))) of
        Inl e \<Rightarrow> ((fs1, lg1), Inl e)
      | Inr fs2 \<Rightarrow> ((fs2, update_status lg1 base_name ''Done (Saved)''), Inr ()))"
  using assms by (simp add: try_body_def Let_def)

text \<open>
  C5. In the mode Compress Only, when the strategies of the requested level end with
  \<^verbatim>\<open>success = False\<close>, the working source stays the input path and the final output is a
  copy of the input: it holds the bytes the input file held before the run. The two
  temporary and final paths differ from the input path (with the functions of
  \<^verbatim>\<open>os.path\<close> they always do: their file names end in \<^verbatim>\<open>_comp_temp.pdf\<close> and
  \<^verbatim>\<open>_processed.pdf\<close> after the root of the input name), and the output can be written.
\<close>

theorem failed_compression_keeps_original:
  assumes "run_strategies E clevel pdf_path temp_comp fs = (fs1, False)"
    and "fs pdf_path = Some original"
    and "temp_comp = path_join E (tempdir E) (fst (path_splitext E base_name) @ ''_comp_temp.pdf'')"
    and "final_output =
           path_join E output_folder (fst (path_splitext E base_name) @ ''_processed.pdf'')"
    and "temp_comp \<noteq> pdf_path" and "final_output \<noteq> pdf_path"
    and "\<not> unwritable E final_output"
  shows "snd (compress_block E ''Compress Only'' clevel base_name pdf_path temp_comp (fs, lg))
           = pdf_path \<and>
         try_body E output_folder split_mb ''Compress Only'' clevel pdf_path base_name (fs, lg) =
           ((fs1(final_output \<mapsto> original),
             update_status (update_status lg base_name (''Compressing ('' @ clevel @ '')...''))
               base_name ''Done (Saved)''),
            Inr ())"
proof -
  have block: "compress_block E ''Compress Only'' clevel base_name pdf_path temp_comp (fs, lg) =
      ((fs1, update_status lg base_name (''Compressing ('' @ clevel @ '')...'')), pdf_path)"
    using compress_block_on [OF _ assms(1), of "''Compress Only''" base_name lg] by simp
  from run_strategies_frame [OF assms(1), of pdf_path] assms(2,5)
  have kept: "fs1 pdf_path = Some original" by simp
  from assms(6) have "pdf_path \<noteq> final_output" by simp
  with kept assms(7)
  have copy: "shutil_copy E fs1 pdf_path final_output = Inr (fs1(final_output \<mapsto> original))"
    by (simp add: shutil_copy_ok)
  from block have "snd (compress_block E ''Compress Only'' clevel base_name pdf_path temp_comp (fs, lg))
      = pdf_path"
    by simp
  moreover
  from try_body_save [OF str_in_compress_only block [unfolded assms(3)]] copy
  have "try_body E output_folder split_mb ''Compress Only'' clevel pdf_path base_name (fs, lg) =
      ((fs1(final_output \<mapsto> original),
        update_status (update_status lg base_name (''Compressing ('' @ clevel @ '')...''))
          base_name ''Done (Saved)''),
       Inr ())"
    by (simp add: assms(4))
  ultimately show ?thesis by simp
qed


lemma example_paths:
  "path_join example_env (tempdir example_env)
     (fst (path_splitext example_env ''bad.pdf'') @ ''_comp_temp.pdf'') = ''/tmp/bad_comp_temp.pdf''"
  "path_join example_env ''/out''
     (fst (path_splitext example_env ''bad.pdf'') @ ''_processed.pdf'') = ''/out/bad_processed.pdf''"
  by (simp_all add: example_env_def example_splitext_def)

lemma example_bad_strategies:
  "run_strategies example_env ''Standard (GS)'' ''/in/bad.pdf'' ''/tmp/bad_comp_temp.pdf'' example_fs =
     (example_fs, False)"
  by (simp add: run_strategies_standard example_gs_unavailable compress_pymupdf_optimize_def
      fitz_open_def)
     (simp add: example_fs_def example_env_def)

theorem failed_compression_keeps_original_witness:
  "run_strategies example_env ''Standard (GS)'' ''/in/bad.pdf'' ''/tmp/bad_comp_temp.pdf'' example_fs =
     (example_fs, False) \<and>
   example_fs ''/in/bad.pdf'' = Some [1, 2, 3] \<and>
   try_body example_env ''/out'' (Finite 1) ''Compress Only'' ''Standard (GS)'' ''/in/bad.pdf''
       ''bad.pdf'' (example_fs, [(''bad.pdf'', ''0.0'', ''Pending'')]) =
     ((example_fs(''/out/bad_processed.pdf'' \<mapsto> [1, 2, 3]),
       [(''bad.pdf'', ''0.0'', ''Done (Saved)'')]),
      Inr ())"
proof -
  have original: "example_fs ''/in/bad.pdf'' = Some [1, 2, 3]"
    by (simp add: example_fs_def)
  have writable: "\<not> unwritable example_env ''/out/bad_processed.pdf''"
    by (simp add: example_env_def)
  from failed_compression_keeps_original
    [OF example_bad_strategies original example_paths(1) [symmetric]
      example_paths(2) [symmetric] _ _ writable, where split_mb = "Finite 1"
      and lg = "[(''bad.pdf'', ''0.0'', ''Pending'')]"]
    example_bad_strategies original
  show ?thesis by simp
qed

section \<open>A successful compression replaces the working source, whatever its size\<close>

text \<open>
  C7. In a compressing mode, whenever the strategies report success and the output file
  exists and is not empty, the working source becomes the compressed copy. Nothing
  relates the size of the output to the size of the input: the replacement happens also
  when the output is larger, as in the run below.
\<close>

theorem compressed_copy_accepted_without_size_check:
  assumes "act = ''Compress Only'' \<or> act = ''Compress + Split''"
    and "run_strategies E clevel pdf_path temp_comp fs = (fs1, True)"
    and "fs1 temp_comp = Some compressed"
    and "compressed \<noteq> []"
  shows "compress_block E act clevel base_name pdf_path temp_comp (fs, lg) =
           ((fs1, update_status lg base_name (''Compressing ('' @ clevel @ '')...'')), temp_comp)"
proof -
  from assms(3) have "path_exists fs1 temp_comp" by (simp add: path_exists_def)
  moreover from assms(3,4) have "0 < get_file_size fs1 temp_comp"
    by (simp add: get_file_size_def)
  ultimately show ?thesis
    using compress_block_on [OF assms(1,2), of base_name lg] by simp
qed

lemma example_bloated:
  "run_strategies bloating_env ''Standard (GS)'' ''/in/a.pdf'' ''/tmp/a_comp_temp.pdf'' example_fs =
     (example_fs(''/tmp/a_comp_temp.pdf'' \<mapsto> [37, 1, 2, 3, 4, 5, 37, 1, 2, 3, 4, 5]), True)"
  by (simp add: run_strategies_standard compress_standard_gs_def gs_commands_def bloating_env_def
      example_env_def example_fs_def Let_def path_exists_def get_file_size_def)

theorem compressed_copy_accepted_without_size_check_witness:
  "example_fs ''/in/a.pdf'' = Some [37, 1, 2, 3, 4, 5] \<and>
   run_strategies bloating_env ''Standard (GS)'' ''/in/a.pdf'' ''/tmp/a_comp_temp.pdf'' example_fs =
     (example_fs(''/tmp/a_comp_temp.pdf'' \<mapsto> [37, 1, 2, 3, 4, 5, 37, 1, 2, 3, 4, 5]), True) \<and>
   length [37, 1, 2, 3, 4, 5 :: byte] < length [37, 1, 2, 3, 4, 5, 37, 1, 2, 3, 4, 5 :: byte] \<and>
   compress_block bloating_env ''Compress Only'' ''Standard (GS)'' ''a.pdf'' ''/in/a.pdf''
       ''/tmp/a_comp_temp.pdf'' (example_fs, [(''a.pdf'', ''0.0'', ''Pending'')]) =
     ((example_fs(''/tmp/a_comp_temp.pdf'' \<mapsto> [37, 1, 2, 3, 4, 5, 37, 1, 2, 3, 4, 5]),
       [(''a.pdf'', ''0.0'', ''Compressing (Standard (GS))...'')]), ''/tmp/a_comp_temp.pdf'')"
proof -
  have original: "example_fs ''/in/a.pdf'' = Some [37, 1, 2, 3, 4, 5]"
    by (simp add: example_fs_def)
  have written: "(example_fs(''/tmp/a_comp_temp.pdf'' \<mapsto> [37, 1, 2, 3, 4, 5, 37, 1, 2, 3, 4, 5]))
      ''/tmp/a_comp_temp.pdf'' = Some [37, 1, 2, 3, 4, 5, 37, 1, 2, 3, 4, 5]"
    by simp
  from compressed_copy_accepted_without_size_check
    [where act = "''Compress Only''" and E = bloating_env and clevel = "''Standard (GS)''"
      and pdf_path = "''/in/a.pdf''" and temp_comp = "''/tmp/a_comp_temp.pdf''"
      and fs = example_fs
      and ?fs1.0 = "example_fs(''/tmp/a_comp_temp.pdf'' \<mapsto> [37, 1, 2, 3, 4, 5, 37, 1, 2, 3, 4, 5])"
      and compressed = "[37, 1, 2, 3, 4, 5, 37, 1, 2, 3, 4, 5]"
      and base_name = "''a.pdf''" and lg = "[(''a.pdf'', ''0.0'', ''Pending'')]"]
    example_bloated original written
  show ?thesis by simp
qed

section \<open>A failure in one file: the batch goes on, the status table may name another file\<close>

lemma run_loop_raise:
  "try_body E output_folder split_mb act clevel pdf_path (path_basename E pdf_path)
       (fs, update_status lg (path_basename E pdf_path) ''Processing...'')
     = ((fs_err, lg_err), Inl e) \<Longrightarrow>
   run_loop E output_folder split_mb act clevel (pdf_path # rest) (fs, lg) =
     run_loop E output_folder split_mb act clevel rest
       (fs_err, update_status lg_err (path_basename E pdf_path) ''Error'')"
  by (simp add: Let_def)

lemma run_loop_append:
  "run_loop E output_folder split_mb act clevel (before @ after) st =
     run_loop E output_folder split_mb act clevel after
       (run_loop E output_folder split_mb act clevel before st)"
proof (induction before arbitrary: st)
  case Nil
  show ?case by simp
next
  case (Cons pdf_path rest)
  obtain fs lg where st: "st = (fs, lg)" by (cases st) auto
  show ?case
    unfolding st
    by (simp add: Let_def Cons.IH split: prod.splits sum.splits)
qed

lemma run_process_completes:
  "pdf_list \<noteq> [] \<Longrightarrow> output_folder \<noteq> [] \<Longrightarrow>
   run_process E pdf_list output_folder (Some split_mb) act clevel st =
     AllTasksCompleted (fst (run_loop E output_folder split_mb act clevel pdf_list st))
       (snd (run_loop E output_folder split_mb act clevel pdf_list st))"
  by (simp add: run_process_def split: prod.splits)

lemma twin_selection:
  "select_pdfs example_env twin_fs twin_files ([], []) =
     (twin_files, [(''x.pdf'', ''0.0'', ''Pending''), (''x.pdf'', ''0.0'', ''Pending'')])"
  by code_simp

lemma twin_first_succeeds:
  "snd (try_body example_env ''/out'' (Finite 1) ''Split Only'' ''Standard (GS)'' ''/a/x.pdf''
          (path_basename example_env ''/a/x.pdf'')
          (twin_fs, update_status [(''x.pdf'', ''0.0'', ''Pending''), (''x.pdf'', ''0.0'', ''Pending'')]
             (path_basename example_env ''/a/x.pdf'') ''Processing...'')) = Inr ()"
  by code_simp

lemma twin_second_raises:
  "snd (try_body example_env ''/out'' (Finite 1) ''Split Only'' ''Standard (GS)'' ''/b/x.pdf''
          (path_basename example_env ''/b/x.pdf'')
          (case run_loop example_env ''/out'' (Finite 1) ''Split Only'' ''Standard (GS)''
                  [''/a/x.pdf'']
                  (twin_fs, [(''x.pdf'', ''0.0'', ''Pending''), (''x.pdf'', ''0.0'', ''Pending'')]) of
             (fs, tree) \<Rightarrow>
               (fs, update_status tree (path_basename example_env ''/b/x.pdf'') ''Processing...'')))
     = Inl FileDataError"
  by code_simp

lemma twin_table:
  "snd (run_loop example_env ''/out'' (Finite 1) ''Split Only'' ''Standard (GS)'' twin_files
          (twin_fs, [(''x.pdf'', ''0.0'', ''Pending''), (''x.pdf'', ''0.0'', ''Pending'')])) =
     [(''x.pdf'', ''0.0'', ''Error''), (''x.pdf'', ''0.0'', ''Pending'')]"
  by code_simp

text \<open>
  C8. The exception of a file is caught and the loop goes on with the next file, to the
  end of the batch; but \<^verbatim>\<open>update_status\<close> writes the status Error into the first row that
  carries the base name of the file, which is the row of another file when two selected
  files have the same base name. In the run below \<^verbatim>\<open>/a/x.pdf\<close> and \<^verbatim>\<open>/b/x.pdf\<close> are
  selected; the first is split, the second is no PDF and its processing raises. At the
  end the table shows Error in the row of the first file, which succeeded, and Pending in
  the row of the second, which failed.
\<close>

theorem error_status_lands_on_another_file:
  "select_pdfs example_env twin_fs twin_files ([], []) =
     (twin_files, [(''x.pdf'', ''0.0'', ''Pending''), (''x.pdf'', ''0.0'', ''Pending'')]) \<and>
   twin_files = [''/a/x.pdf'', ''/b/x.pdf''] \<and>
   snd (try_body example_env ''/out'' (Finite 1) ''Split Only'' ''Standard (GS)'' ''/a/x.pdf''
          (path_basename example_env ''/a/x.pdf'')
          (twin_fs, update_status [(''x.pdf'', ''0.0'', ''Pending''), (''x.pdf'', ''0.0'', ''Pending'')]
             (path_basename example_env ''/a/x.pdf'') ''Processing...'')) = Inr () \<and>
   snd (try_body example_env ''/out'' (Finite 1) ''Split Only'' ''Standard (GS)'' ''/b/x.pdf''
          (path_basename example_env ''/b/x.pdf'')
          (case run_loop example_env ''/out'' (Finite 1) ''Split Only'' ''Standard (GS)''
                  [''/a/x.pdf'']
                  (twin_fs, [(''x.pdf'', ''0.0'', ''Pending''), (''x.pdf'', ''0.0'', ''Pending'')]) of
             (fs, tree) \<Rightarrow>
               (fs, update_status tree (path_basename example_env ''/b/x.pdf'') ''Processing...'')))
     = Inl FileDataError \<and>
   run_process example_env twin_files ''/out'' (Some (Finite 1)) ''Split Only'' ''Standard (GS)''
       (twin_fs, [(''x.pdf'', ''0.0'', ''Pending''), (''x.pdf'', ''0.0'', ''Pending'')]) =
     AllTasksCompleted
       (fst (run_loop example_env ''/out'' (Finite 1) ''Split Only'' ''Standard (GS)'' twin_files
          (twin_fs, [(''x.pdf'', ''0.0'', ''Pending''), (''x.pdf'', ''0.0'', ''Pending'')])))
       [(''x.pdf'', ''0.0'', ''Error''), (''x.pdf'', ''0.0'', ''Pending'')]"
proof -
  have files: "twin_files \<noteq> []" and folder: "''/out'' \<noteq> []"
    by (simp_all add: twin_files_def)
  from run_process_completes [OF files folder, of example_env "Finite 1" "''Split Only''"
      "''Standard (GS)''"
      "(twin_fs, [(''x.pdf'', ''0.0'', ''Pending''), (''x.pdf'', ''0.0'', ''Pending'')])"]
    twin_selection twin_first_succeeds twin_second_raises twin_table
  show ?thesis by (simp add: twin_files_def)
qed

section \<open>Temporary files after a run\<close>

lemma doc_save_keeps:
  "doc_save E d p fs = Inr fs' \<Longrightarrow> fs q \<noteq> None \<Longrightarrow> fs' q \<noteq> None"
  by (auto simp: doc_save_def split: if_splits)

lemma doc_save_written:
  "doc_save E d p fs = Inr fs' \<Longrightarrow> fs' p \<noteq> None"
  by (auto simp: doc_save_def split: if_splits)

lemma add_pages_keeps:
  "add_pages E doc tp m part p fs = (fs', r) \<Longrightarrow> fs q \<noteq> None \<Longrightarrow> fs' q \<noteq> None"
proof (induction E doc tp m part p fs rule: add_pages.induct)
  case (1 E doc tp m part p fs)
  show ?case
  proof (cases "p < length doc")
    case False
    with "1.prems" show ?thesis by (simp add: add_pages_end)
  next
    case inb: True
    show ?thesis
    proof (cases "pages_of part = []")
      case True
      with inb "1.prems"(1)
      have "add_pages E doc tp m (InsertPdf part (InsertPage Blank (Opened doc) p)) (p + 1) fs = (fs', r)"
        by (simp add: add_pages_first)
      from "1.IH"(1) [OF inb refl _ this "1.prems"(2)] True show ?thesis by simp
    next
      case ne: False
      show ?thesis
      proof (cases "doc_save E (InsertPdf (InsertPdf Blank part) (InsertPage Blank (Opened doc) p)) tp fs")
        case (Inl e)
        with inb ne "1.prems" show ?thesis by (simp add: add_pages_next)
      next
        case (Inr b)
        note kept = doc_save_keeps [OF Inr "1.prems"(2)]
        show ?thesis
        proof (cases "m < get_file_size b tp")
          case True
          with Inr inb ne "1.prems"(1) kept show ?thesis by (simp add: add_pages_next)
        next
          case False
          with Inr inb ne "1.prems"(1)
          have "add_pages E doc tp m (InsertPdf part (InsertPage Blank (Opened doc) p)) (p + 1) b = (fs', r)"
            by (simp add: add_pages_next)
          from "1.IH"(2) [OF inb refl _ refl Inr refl False this kept] ne show ?thesis by simp
        qed
      qed
    qed
  qed
qed

lemma add_pages_trial_written:
  assumes "add_pages E doc tp m part p fs = (fs', Inr res)"
    and "p < length doc" and "pages_of part \<noteq> []"
  shows "fs' tp \<noteq> None"
proof (cases "doc_save E (InsertPdf (InsertPdf Blank part) (InsertPage Blank (Opened doc) p)) tp fs")
  case (Inl e)
  with assms show ?thesis by (simp add: add_pages_next)
next
  case (Inr b)
  note written = doc_save_written [OF Inr]
  show ?thesis
  proof (cases "m < get_file_size b tp")
    case True
    with Inr assms written show ?thesis by (simp add: add_pages_next)
  next
    case False
    with Inr assms
    have "add_pages E doc tp m (InsertPdf part (InsertPage Blank (Opened doc) p)) (p + 1) b = (fs', Inr res)"
      by (simp add: add_pages_next)
    from add_pages_keeps [OF this written] show ?thesis .
  qed
qed

lemma split_loop_keeps:
  "split_loop E doc folder base m start i outs fs = (fs', r) \<Longrightarrow> fs q \<noteq> None \<Longrightarrow>
   fs' q \<noteq> None"
proof (induction E doc folder base m start i outs fs rule: split_loop.induct)
  case (1 E doc folder base m start i outs fs)
  let ?tp = "path_join E (tempdir E) (''__trial_'' @ base @ ''.pdf'')"
  let ?out = "path_join E folder (base @ ''_part'' @ str_nat i @ ''.pdf'')"
  show ?case
  proof (cases "start < length doc")
    case False
    with "1.prems" show ?thesis by (simp add: split_loop_end)
  next
    case inb: True
    obtain fs1 res where ap: "add_pages E doc ?tp m Blank start fs = (fs1, res)"
      by (cases "add_pages E doc ?tp m Blank start fs") auto
    note k1 = add_pages_keeps [OF ap "1.prems"(2)]
    show ?thesis
    proof (cases res)
      case (Inl e)
      with inb ap "1.prems"(1) k1 show ?thesis by (simp add: split_loop_step)
    next
      case (Inr b)
      obtain part p where b: "b = (part, p)" by (cases b) auto
      show ?thesis
      proof (cases "doc_save E part ?out fs1")
        case (Inl e)
        with inb ap Inr b "1.prems"(1) k1 show ?thesis by (simp add: split_loop_step)
      next
        case save: (Inr fs2)
        with inb ap Inr b "1.prems"(1)
        have run: "split_loop E doc folder base m p (i + 1) (outs @ [(?out, part)]) fs2 = (fs', r)"
          by (simp add: split_loop_step)
        from ap have ap_sym: "(fs1, res) = add_pages E doc ?tp m Blank start fs" by simp
        from "1.IH" [OF inb ap_sym Inr b [symmetric] refl save run doc_save_keeps [OF save k1]]
        show ?thesis .
      qed
    qed
  qed
qed

lemma split_pdf_keeps:
  "split_pdf E pdf_path folder base m fs = (fs', r) \<Longrightarrow> fs q \<noteq> None \<Longrightarrow> fs' q \<noteq> None"
  by (cases "fitz_open E fs pdf_path") (auto simp: split_pdf_def dest: split_loop_keeps)

lemma split_pdf_trial_remains:
  assumes "fitz_open E fs pdf_path = Inr doc" and "2 \<le> length doc"
    and "split_pdf E pdf_path folder base m fs = (fs', Inr outputs)"
  shows "fs' (path_join E (tempdir E) (''__trial_'' @ base @ ''.pdf'')) \<noteq> None"
proof -
  let ?tp = "path_join E (tempdir E) (''__trial_'' @ base @ ''.pdf'')"
  let ?out = "path_join E folder (base @ ''_part'' @ str_nat 1 @ ''.pdf'')"
  let ?first = "InsertPdf Blank (InsertPage Blank (Opened doc) 0)"
  from assms(2) have inb: "0 < length doc" and inb1: "0 + 1 < length doc" by auto
  from inb have first: "pages_of ?first \<noteq> []"
    by (simp add: pages_of_temp del: pages_of.simps(4))
  from assms(1,3) have run: "split_loop E doc folder base m 0 1 [] fs = (fs', Inr outputs)"
    by (simp add: split_pdf_eq)
  obtain fs1 res where ap: "add_pages E doc ?tp m Blank 0 fs = (fs1, res)"
    by (cases "add_pages E doc ?tp m Blank 0 fs") auto
  show ?thesis
  proof (cases res)
    case (Inl e)
    with inb ap run show ?thesis by (simp add: split_loop_step)
  next
    case (Inr b)
    obtain part p where b: "b = (part, p)" by (cases b) auto
    from ap Inr inb have "add_pages E doc ?tp m ?first (0 + 1) fs = (fs1, Inr b)"
      by (simp add: add_pages_first)
    from add_pages_trial_written [OF this inb1 first] have w1: "fs1 ?tp \<noteq> None" .
    show ?thesis
    proof (cases "doc_save E part ?out fs1")
      case (Inl e)
      with inb ap Inr b run show ?thesis by (simp add: split_loop_step)
    next
      case save: (Inr fs2)
      with inb ap Inr b run
      have "split_loop E doc folder base m p (1 + 1) ([] @ [(?out, part)]) fs2 = (fs', Inr outputs)"
        by (simp add: split_loop_step)
      from split_loop_keeps [OF this doc_save_keeps [OF save w1]] show ?thesis .
    qed
  qed
qed

lemma gs_loop_keeps:
  "gs_loop E exes pdf_path output_path fs = (fs', success) \<Longrightarrow> fs q \<noteq> None \<Longrightarrow> fs' q \<noteq> None"
proof (induction exes arbitrary: fs)
  case Nil
  then show ?case by simp
next
  case (Cons gs_exe rest)
  show ?case
  proof (cases "ghostscript E gs_exe (fs pdf_path)")
    case GsRaises
    with Cons.prems have "gs_loop E rest pdf_path output_path fs = (fs', success)" by simp
    from Cons.IH [OF this Cons.prems(2)] show ?thesis .
  next
    case (GsExit ret written)
    define fs1 where "fs1 = (case written of None \<Rightarrow> fs | Some b \<Rightarrow> fs(output_path \<mapsto> b))"
    from Cons.prems(2) have kept: "fs1 q \<noteq> None"
      by (simp add: fs1_def split: option.splits)
    show ?thesis
    proof (cases "ret = 0 \<and> path_exists fs1 output_path \<and> 0 < get_file_size fs1 output_path")
      case True
      with GsExit Cons.prems(1) have "fs' = fs1" by (simp add: fs1_def Let_def)
      with kept show ?thesis by simp
    next
      case False
      with GsExit Cons.prems(1) have "gs_loop E rest pdf_path output_path fs1 = (fs', success)"
        by (auto simp: fs1_def Let_def split: if_splits)
      from Cons.IH [OF this kept] show ?thesis .
    qed
  qed
qed

lemma compress_pymupdf_optimize_keeps:
  "compress_pymupdf_optimize E pdf_path output_path fs = (fs', success) \<Longrightarrow>
   fs q \<noteq> None \<Longrightarrow> fs' q \<noteq> None"
  by (auto simp: compress_pymupdf_optimize_def doc_save_def split: sum.splits if_splits)

lemma compress_binary_bw_keeps:
  "compress_binary_bw E pdf_path output_path fs = (fs', success) \<Longrightarrow>
   fs q \<noteq> None \<Longrightarrow> fs' q \<noteq> None"
  by (auto simp: compress_binary_bw_def doc_save_def split: sum.splits option.splits if_splits)

lemma run_strategies_keeps:
  assumes "run_strategies E clevel pdf_path temp_comp fs = (fs', success)"
    and "fs q \<noteq> None"
  shows "fs' q \<noteq> None"
proof (cases "clevel = ''Extreme (B&W)''")
  case True
  with assms(1) have "compress_binary_bw E pdf_path temp_comp fs = (fs', success)"
    by (simp add: run_strategies_def)
  from compress_binary_bw_keeps [OF this assms(2)] show ?thesis .
next
  case ne: False
  show ?thesis
  proof (cases "clevel = ''Standard (GS)''")
    case False
    with ne assms show ?thesis by (simp add: run_strategies_def)
  next
    case True
    obtain fs1 s1 where gs: "compress_standard_gs E pdf_path temp_comp fs = (fs1, s1)"
      by (cases "compress_standard_gs E pdf_path temp_comp fs") auto
    then have k1: "fs1 q \<noteq> None"
      using gs_loop_keeps [of E gs_commands pdf_path temp_comp fs fs1 s1 q] assms(2)
      by (simp add: compress_standard_gs_def)
    show ?thesis
    proof (cases s1)
      case True
      with gs \<open>clevel = ''Standard (GS)''\<close> assms(1) have "fs' = fs1"
        by (simp add: run_strategies_def)
      with k1 show ?thesis by simp
    next
      case False
      with gs \<open>clevel = ''Standard (GS)''\<close> assms(1)
      have "compress_pymupdf_optimize E pdf_path temp_comp fs1 = (fs', success)"
        by (simp add: run_strategies_def)
      from compress_pymupdf_optimize_keeps [OF this k1] show ?thesis .
    qed
  qed
qed

lemma compress_block_keeps:
  assumes "compress_block E act clevel base_name pdf_path temp_comp (fs, lg) = ((fs1, lg1), src)"
  shows "(fs q \<noteq> None \<longrightarrow> fs1 q \<noteq> None) \<and> (src = temp_comp \<or> src = pdf_path)"
proof (cases "act = ''Compress Only'' \<or> act = ''Compress + Split''")
  case True
  obtain fs' success where run: "run_strategies E clevel pdf_path temp_comp fs = (fs', success)"
    by (cases "run_strategies E clevel pdf_path temp_comp fs") auto
  from compress_block_on [OF True run, of base_name lg] assms
  have "fs1 = fs'" and "src = temp_comp \<or> src = pdf_path"
    by (auto split: if_splits)
  with run_strategies_keeps [OF run, of q] show ?thesis by simp
next
  case False
  with assms show ?thesis by (simp add: compress_block_off)
qed

lemma shutil_copy_keeps:
  "shutil_copy E fs src dst = Inr fs' \<Longrightarrow> fs q \<noteq> None \<Longrightarrow> fs' q \<noteq> None"
  by (auto simp: shutil_copy_def split: option.splits if_splits)

lemma shutil_move_keeps:
  "shutil_move E fs src dst = Inr fs' \<Longrightarrow> fs q \<noteq> None \<Longrightarrow> q \<noteq> src \<Longrightarrow> fs' q \<noteq> None"
  by (auto simp: shutil_move_def split: option.splits if_splits)

lemma str_in_compress_split [simp]: "str_in ''Split'' ''Compress + Split''"
  by simp

lemma try_body_keeps:
  assumes block: "compress_block E act clevel base_name pdf_path
           (path_join E (tempdir E) (fst (path_splitext E base_name) @ ''_comp_temp.pdf'')) (fs, lg)
         = ((fs1, lg1), src)"
    and body: "try_body E output_folder split_mb act clevel pdf_path base_name (fs, lg)
         = ((fs', lg'), r)"
    and exists: "fs1 q \<noteq> None"
  shows "fs' q \<noteq> None \<or>
         (q = path_join E (tempdir E) (fst (path_splitext E base_name) @ ''_comp_temp.pdf'') \<and>
          \<not> str_in ''Split'' act \<and> src = q \<and> src \<noteq> pdf_path \<and> r = Inr ())"
proof (cases "str_in ''Split'' act")
  case True
  show ?thesis
  proof (cases "target_bytes_of split_mb")
    case (Inl e)
    with True block body exists show ?thesis by (simp add: try_body_def Let_def)
  next
    case (Inr target_bytes)
    let ?base = "fst (path_splitext E base_name)"
    obtain fs2 res where
      split: "split_pdf E src output_folder ?base target_bytes fs1 = (fs2, res)"
      by (cases "split_pdf E src output_folder ?base target_bytes fs1") auto
    from split_pdf_keeps [OF split exists] have "fs2 q \<noteq> None" .
    moreover from True block body Inr split have "fs' = fs2"
      by (cases res) (simp_all add: try_body_def Let_def)
    ultimately show ?thesis by simp
  qed
next
  case False
  let ?temp = "path_join E (tempdir E) (fst (path_splitext E base_name) @ ''_comp_temp.pdf'')"
  let ?final = "path_join E output_folder (fst (path_splitext E base_name) @ ''_processed.pdf'')"
  from compress_block_keeps [OF block] have src: "src = ?temp \<or> src = pdf_path" by simp
  show ?thesis
  proof (cases "src \<noteq> pdf_path")
    case moved: True
    with src have temp: "src = ?temp" by simp
    show ?thesis
    proof (cases "shutil_move E fs1 src ?final")
      case (Inl e)
      with False block body moved exists show ?thesis by (simp add: try_body_save)
    next
      case (Inr fs2)
      with False block body moved have fin: "fs' = fs2" "r = Inr ()"
        by (simp_all add: try_body_save)
      show ?thesis
      proof (cases "q = src")
        case True
        with temp False moved fin show ?thesis by simp
      next
        case other: False
        from shutil_move_keeps [OF Inr exists other] fin show ?thesis by simp
      qed
    qed
  next
    case copied: False
    show ?thesis
    proof (cases "shutil_copy E fs1 pdf_path ?final")
      case (Inl e)
      with False block body copied exists show ?thesis by (simp add: try_body_save)
    next
      case (Inr fs2)
      with False block body copied have "fs' = fs2" by (simp add: try_body_save)
      with shutil_copy_keeps [OF Inr exists] show ?thesis by simp
    qed
  qed
qed

lemma try_body_split_files:
  assumes "str_in ''Split'' act"
    and "compress_block E act clevel base_name pdf_path
           (path_join E (tempdir E) (fst (path_splitext E base_name) @ ''_comp_temp.pdf'')) (fs, lg)
         = ((fs1, lg1), src)"
  shows "fst (fst (try_body E output_folder split_mb act clevel pdf_path base_name (fs, lg))) =
     (case target_bytes_of split_mb of
        Inl e \<Rightarrow> fs1
      | Inr target_bytes \<Rightarrow>
          fst (split_pdf E src output_folder (fst (path_splitext E base_name)) target_bytes fs1))"
  using assms
  by (simp add: try_body_def Let_def split: sum.splits prod.splits)

lemma run_loop_single_files:
  "fst (run_loop E output_folder split_mb act clevel [pdf_path] (fs, lg)) =
   fst (fst (try_body E output_folder split_mb act clevel pdf_path (path_basename E pdf_path)
     (fs, update_status lg (path_basename E pdf_path) ''Processing...'')))"
  by (simp add: Let_def split: sum.splits prod.splits)

text \<open>
  C9, as the code has it. Processing a file removes no file, with one exception. Every
  file that exists before the compression block still exists after it. Every file that
  exists after the compression block, the compressed working copy among them whether the
  strategies succeeded or not, still exists when the body of the \<^verbatim>\<open>try\<close> ends, on every
  exit path, unless the mode has no split, the working source is the compressed working
  copy and the body ended without an exception. In that one case, when the working copy
  can be moved to the final output, the final output holds its bytes and nothing is left
  under its temporary path. In a mode with a split the files at the end of the body are
  the files the splitter left (the files after the compression block, when the split
  limit has no integer value), and the exception handler of the loop changes no file. No
  run of either loop of the splitter, from any state and whether it returns or raises,
  removes a file; and after a split of a document of two pages or more that returned,
  the trial file \<^verbatim>\<open>__trial_<base>.pdf\<close> exists in the temporary directory.
\<close>

theorem temporary_files_after_processing:
  "(compress_block E act clevel base_name pdf_path temp_comp (fs, lg) = ((fs_c, lg_c), src) \<and>
    fs qa \<noteq> None \<longrightarrow> fs_c qa \<noteq> None) \<and>
   (temp_comp = path_join E (tempdir E) (fst (path_splitext E base_name) @ ''_comp_temp.pdf'') \<and>
    compress_block E act clevel base_name pdf_path temp_comp (fs, lg) = ((fs_c, lg_c), src) \<and>
    try_body E output_folder split_mb act clevel pdf_path base_name (fs, lg) =
      ((fs_end, lg_end), r) \<and>
    fs_c qb \<noteq> None \<longrightarrow>
      fs_end qb \<noteq> None \<or>
      (qb = temp_comp \<and> \<not> str_in ''Split'' act \<and> src = temp_comp \<and> src \<noteq> pdf_path \<and>
       r = Inr ())) \<and>
   (temp_comp = path_join E (tempdir E) (fst (path_splitext E base_name) @ ''_comp_temp.pdf'') \<and>
    final_output =
      path_join E output_folder (fst (path_splitext E base_name) @ ''_processed.pdf'') \<and>
    compress_block E act clevel base_name pdf_path temp_comp (fs, lg) = ((fs_c, lg_c), src) \<and>
    \<not> str_in ''Split'' act \<and> src = temp_comp \<and> src \<noteq> pdf_path \<and>
    fs_c temp_comp = Some compressed \<and> temp_comp \<noteq> final_output \<and>
    \<not> unwritable E final_output \<longrightarrow>
      try_body E output_folder split_mb act clevel pdf_path base_name (fs, lg) =
        (((fs_c(final_output \<mapsto> compressed))(temp_comp := None),
          update_status lg_c base_name ''Done (Saved)''),
         Inr ())) \<and>
   (temp_comp = path_join E (tempdir E) (fst (path_splitext E base_name) @ ''_comp_temp.pdf'') \<and>
    compress_block E act clevel base_name pdf_path temp_comp (fs, lg) = ((fs_c, lg_c), src) \<and>
    str_in ''Split'' act \<longrightarrow>
      fst (fst (try_body E output_folder split_mb act clevel pdf_path base_name (fs, lg))) =
        (case target_bytes_of split_mb of
           Inl e \<Rightarrow> fs_c
         | Inr target_bytes \<Rightarrow>
             fst (split_pdf E src output_folder (fst (path_splitext E base_name))
                    target_bytes fs_c))) \<and>
   fst (run_loop E output_folder split_mb act clevel [pdf_path] (fs, lg)) =
     fst (fst (try_body E output_folder split_mb act clevel pdf_path (path_basename E pdf_path)
       (fs, update_status lg (path_basename E pdf_path) ''Processing...''))) \<and>
   (add_pages E doc trial_path max_size_bytes part_doc p fs_a = (fs_b, res_a) \<and>
    fs_a qc \<noteq> None \<longrightarrow> fs_b qc \<noteq> None) \<and>
   (split_loop E doc output_folder base max_size_bytes start part_index outs fs_l = (fs_m, res_l) \<and>
    fs_l qd \<noteq> None \<longrightarrow> fs_m qd \<noteq> None) \<and>
   (fitz_open E fs_in src_path = Inr doc \<and> 2 \<le> length doc \<and>
    split_pdf E src_path output_folder base max_size_bytes fs_in = (fs_out, Inr outputs) \<longrightarrow>
      fs_out (path_join E (tempdir E) (''__trial_'' @ base @ ''.pdf'')) \<noteq> None)"
proof (intro conjI impI)
  assume "compress_block E act clevel base_name pdf_path temp_comp (fs, lg) = ((fs_c, lg_c), src) \<and>
    fs qa \<noteq> None"
  then have "compress_block E act clevel base_name pdf_path temp_comp (fs, lg) = ((fs_c, lg_c), src)"
    and "fs qa \<noteq> None"
    by blast+
  with compress_block_keeps [of E act clevel base_name pdf_path temp_comp fs lg fs_c lg_c src qa]
  show "fs_c qa \<noteq> None" by blast
next
  assume a: "temp_comp =
      path_join E (tempdir E) (fst (path_splitext E base_name) @ ''_comp_temp.pdf'') \<and>
    compress_block E act clevel base_name pdf_path temp_comp (fs, lg) = ((fs_c, lg_c), src) \<and>
    try_body E output_folder split_mb act clevel pdf_path base_name (fs, lg) =
      ((fs_end, lg_end), r) \<and>
    fs_c qb \<noteq> None"
  then have temp: "temp_comp =
      path_join E (tempdir E) (fst (path_splitext E base_name) @ ''_comp_temp.pdf'')"
    and block: "compress_block E act clevel base_name pdf_path temp_comp (fs, lg)
      = ((fs_c, lg_c), src)"
    and body: "try_body E output_folder split_mb act clevel pdf_path base_name (fs, lg) =
      ((fs_end, lg_end), r)"
    and exists: "fs_c qb \<noteq> None"
    by blast+
  from try_body_keeps [OF block [unfolded temp] body exists]
  show "fs_end qb \<noteq> None \<or>
      (qb = temp_comp \<and> \<not> str_in ''Split'' act \<and> src = temp_comp \<and> src \<noteq> pdf_path \<and>
       r = Inr ())"
    unfolding temp by blast
next
  assume a: "temp_comp =
      path_join E (tempdir E) (fst (path_splitext E base_name) @ ''_comp_temp.pdf'') \<and>
    final_output =
      path_join E output_folder (fst (path_splitext E base_name) @ ''_processed.pdf'') \<and>
    compress_block E act clevel base_name pdf_path temp_comp (fs, lg) = ((fs_c, lg_c), src) \<and>
    \<not> str_in ''Split'' act \<and> src = temp_comp \<and> src \<noteq> pdf_path \<and>
    fs_c temp_comp = Some compressed \<and> temp_comp \<noteq> final_output \<and>
    \<not> unwritable E final_output"
  then have temp: "temp_comp =
      path_join E (tempdir E) (fst (path_splitext E base_name) @ ''_comp_temp.pdf'')"
    and final: "final_output =
      path_join E output_folder (fst (path_splitext E base_name) @ ''_processed.pdf'')"
    and block: "compress_block E act clevel base_name pdf_path temp_comp (fs, lg)
      = ((fs_c, lg_c), src)"
    and mode: "\<not> str_in ''Split'' act"
    and src: "src = temp_comp" "src \<noteq> pdf_path"
    and out: "fs_c temp_comp = Some compressed"
    and distinct: "temp_comp \<noteq> final_output"
    and writable: "\<not> unwritable E final_output"
    by blast+
  from out distinct writable
  have move: "shutil_move E fs_c temp_comp final_output =
      Inr ((fs_c(final_output \<mapsto> compressed))(temp_comp := None))"
    by (simp add: shutil_move_ok)
  from try_body_save [OF mode block [unfolded temp]] move src
  show "try_body E output_folder split_mb act clevel pdf_path base_name (fs, lg) =
        (((fs_c(final_output \<mapsto> compressed))(temp_comp := None),
          update_status lg_c base_name ''Done (Saved)''),
         Inr ())"
    by (simp add: temp [symmetric] final [symmetric])
next
  assume "temp_comp =
      path_join E (tempdir E) (fst (path_splitext E base_name) @ ''_comp_temp.pdf'') \<and>
    compress_block E act clevel base_name pdf_path temp_comp (fs, lg) = ((fs_c, lg_c), src) \<and>
    str_in ''Split'' act"
  then have temp: "temp_comp =
      path_join E (tempdir E) (fst (path_splitext E base_name) @ ''_comp_temp.pdf'')"
    and block: "compress_block E act clevel base_name pdf_path temp_comp (fs, lg)
      = ((fs_c, lg_c), src)"
    and mode: "str_in ''Split'' act"
    by blast+
  from try_body_split_files [OF mode block [unfolded temp]]
  show "fst (fst (try_body E output_folder split_mb act clevel pdf_path base_name (fs, lg))) =
        (case target_bytes_of split_mb of
           Inl e \<Rightarrow> fs_c
         | Inr target_bytes \<Rightarrow>
             fst (split_pdf E src output_folder (fst (path_splitext E base_name))
                    target_bytes fs_c))" .
next
  show "fst (run_loop E output_folder split_mb act clevel [pdf_path] (fs, lg)) =
     fst (fst (try_body E output_folder split_mb act clevel pdf_path (path_basename E pdf_path)
       (fs, update_status lg (path_basename E pdf_path) ''Processing...'')))"
    by (rule run_loop_single_files)
next
  assume "add_pages E doc trial_path max_size_bytes part_doc p fs_a = (fs_b, res_a) \<and>
    fs_a qc \<noteq> None"
  then have "add_pages E doc trial_path max_size_bytes part_doc p fs_a = (fs_b, res_a)"
    and "fs_a qc \<noteq> None"
    by blast+
  then show "fs_b qc \<noteq> None" by (rule add_pages_keeps)
next
  assume "split_loop E doc output_folder base max_size_bytes start part_index outs fs_l
      = (fs_m, res_l) \<and> fs_l qd \<noteq> None"
  then have "split_loop E doc output_folder base max_size_bytes start part_index outs fs_l
      = (fs_m, res_l)"
    and "fs_l qd \<noteq> None"
    by blast+
  then show "fs_m qd \<noteq> None" by (rule split_loop_keeps)
next
  assume "fitz_open E fs_in src_path = Inr doc \<and> 2 \<le> length doc \<and>
    split_pdf E src_path output_folder base max_size_bytes fs_in = (fs_out, Inr outputs)"
  then have "fitz_open E fs_in src_path = Inr doc" and "2 \<le> length doc"
    and "split_pdf E src_path output_folder base max_size_bytes fs_in = (fs_out, Inr outputs)"
    by blast+
  then show "fs_out (path_join E (tempdir E) (''__trial_'' @ base @ ''.pdf'')) \<noteq> None"
    by (rule split_pdf_trial_remains)
qed

lemma bloating_a_paths:
  "path_join bloating_env (tempdir bloating_env)
     (fst (path_splitext bloating_env ''a.pdf'') @ ''_comp_temp.pdf'') = ''/tmp/a_comp_temp.pdf''"
  "path_join bloating_env ''/out''
     (fst (path_splitext bloating_env ''a.pdf'') @ ''_processed.pdf'') = ''/out/a_processed.pdf''"
  "path_join bloating_env (tempdir bloating_env) (''__trial_'' @ ''a'' @ ''.pdf'') =
     ''/tmp/__trial_a.pdf''"
  "\<not> unwritable bloating_env ''/out/a_processed.pdf''"
  by (simp_all add: bloating_env_def example_env_def example_splitext_def)

lemma bloating_open: "fitz_open bloating_env example_fs ''/in/a.pdf'' = Inr [1, 2, 3, 4, 5]"
  by (simp add: fitz_open_def bloating_env_def example_env_def example_fs_def)

lemma bloating_split:
  "map_sum id parts_of (snd (split_pdf bloating_env ''/in/a.pdf'' ''/out'' ''a'' 3 example_fs)) =
     Inr [(''/out/a_part1.pdf'', [1, 2]), (''/out/a_part2.pdf'', [3, 4]),
          (''/out/a_part3.pdf'', [5])]"
  by code_simp

lemma bloating_block:
  "compress_block bloating_env ''Compress Only'' ''Standard (GS)'' ''a.pdf'' ''/in/a.pdf''
       ''/tmp/a_comp_temp.pdf'' (example_fs, [(''a.pdf'', ''0.0'', ''Pending'')]) =
     ((example_fs(''/tmp/a_comp_temp.pdf'' \<mapsto> [37, 1, 2, 3, 4, 5, 37, 1, 2, 3, 4, 5]),
       [(''a.pdf'', ''0.0'', ''Compressing (Standard (GS))...'')]), ''/tmp/a_comp_temp.pdf'')"
  using compress_block_on [OF _ example_bloated, of "''Compress Only''" "''a.pdf''"
      "[(''a.pdf'', ''0.0'', ''Pending'')]"]
  by (simp add: path_exists_def get_file_size_def)

lemma bloating_block_split:
  "compress_block bloating_env ''Compress + Split'' ''Standard (GS)'' ''a.pdf'' ''/in/a.pdf''
       ''/tmp/a_comp_temp.pdf'' (example_fs, [(''a.pdf'', ''0.0'', ''Pending'')]) =
     ((example_fs(''/tmp/a_comp_temp.pdf'' \<mapsto> [37, 1, 2, 3, 4, 5, 37, 1, 2, 3, 4, 5]),
       [(''a.pdf'', ''0.0'', ''Compressing (Standard (GS))...'')]), ''/tmp/a_comp_temp.pdf'')"
  using compress_block_on [OF _ example_bloated, of "''Compress + Split''" "''a.pdf''"
      "[(''a.pdf'', ''0.0'', ''Pending'')]"]
  by (simp add: path_exists_def get_file_size_def)

lemma example_target_bytes: "target_bytes_of (Finite 1) = Inr 1048576"
  by (simp add: target_bytes_of_def)

theorem temporary_files_after_processing_witness:
  "compress_block bloating_env ''Compress Only'' ''Standard (GS)'' ''a.pdf'' ''/in/a.pdf''
       ''/tmp/a_comp_temp.pdf'' (example_fs, [(''a.pdf'', ''0.0'', ''Pending'')]) =
     ((example_fs(''/tmp/a_comp_temp.pdf'' \<mapsto> [37, 1, 2, 3, 4, 5, 37, 1, 2, 3, 4, 5]),
       [(''a.pdf'', ''0.0'', ''Compressing (Standard (GS))...'')]), ''/tmp/a_comp_temp.pdf'') \<and>
   example_fs ''/in/a.pdf'' \<noteq> None \<and>
   try_body bloating_env ''/out'' (Finite 1) ''Compress Only'' ''Standard (GS)'' ''/in/a.pdf''
       ''a.pdf'' (example_fs, [(''a.pdf'', ''0.0'', ''Pending'')]) =
     ((((example_fs(''/tmp/a_comp_temp.pdf'' \<mapsto> [37, 1, 2, 3, 4, 5, 37, 1, 2, 3, 4, 5]))
          (''/out/a_processed.pdf'' \<mapsto> [37, 1, 2, 3, 4, 5, 37, 1, 2, 3, 4, 5]))
          (''/tmp/a_comp_temp.pdf'' := None),
       [(''a.pdf'', ''0.0'', ''Done (Saved)'')]),
      Inr ()) \<and>
   (((example_fs(''/tmp/a_comp_temp.pdf'' \<mapsto> [37, 1, 2, 3, 4, 5, 37, 1, 2, 3, 4, 5]))
       (''/out/a_processed.pdf'' \<mapsto> [37, 1, 2, 3, 4, 5, 37, 1, 2, 3, 4, 5]))
       (''/tmp/a_comp_temp.pdf'' := None)) ''/in/a.pdf'' \<noteq> None \<and>
   fst (add_pages bloating_env [1, 2, 3, 4, 5] ''/tmp/__trial_a.pdf'' 3 Blank 2 example_fs)
     ''/in/a.pdf'' \<noteq> None \<and>
   fst (split_loop bloating_env [1, 2, 3, 4, 5] ''/out'' ''a'' 3 0 1 [] example_fs)
     ''/in/a.pdf'' \<noteq> None \<and>
   fitz_open bloating_env example_fs ''/in/a.pdf'' = Inr [1, 2, 3, 4, 5] \<and>
   fst (split_pdf bloating_env ''/in/a.pdf'' ''/out'' ''a'' 3 example_fs) ''/tmp/__trial_a.pdf''
     \<noteq> None \<and>
   compress_block bloating_env ''Compress + Split'' ''Standard (GS)'' ''a.pdf'' ''/in/a.pdf''
       ''/tmp/a_comp_temp.pdf'' (example_fs, [(''a.pdf'', ''0.0'', ''Pending'')]) =
     ((example_fs(''/tmp/a_comp_temp.pdf'' \<mapsto> [37, 1, 2, 3, 4, 5, 37, 1, 2, 3, 4, 5]),
       [(''a.pdf'', ''0.0'', ''Compressing (Standard (GS))...'')]), ''/tmp/a_comp_temp.pdf'') \<and>
   fst (fst (try_body bloating_env ''/out'' (Finite 1) ''Compress + Split'' ''Standard (GS)''
       ''/in/a.pdf'' ''a.pdf'' (example_fs, [(''a.pdf'', ''0.0'', ''Pending'')]))) =
     fst (split_pdf bloating_env ''/tmp/a_comp_temp.pdf'' ''/out'' ''a'' 1048576
       (example_fs(''/tmp/a_comp_temp.pdf'' \<mapsto> [37, 1, 2, 3, 4, 5, 37, 1, 2, 3, 4, 5])))"
proof -
  let ?big = "[37, 1, 2, 3, 4, 5, 37, 1, 2, 3, 4, 5] :: byte list"
  let ?fs_c = "example_fs(''/tmp/a_comp_temp.pdf'' \<mapsto> ?big)"
  let ?fs_end = "(?fs_c(''/out/a_processed.pdf'' \<mapsto> ?big))(''/tmp/a_comp_temp.pdf'' := None)"
  let ?inner = "add_pages bloating_env [1, 2, 3, 4, 5] ''/tmp/__trial_a.pdf'' 3 Blank 2 example_fs"
  let ?loop = "split_loop bloating_env [1, 2, 3, 4, 5] ''/out'' ''a'' 3 0 1 [] example_fs"
  let ?split = "split_pdf bloating_env ''/in/a.pdf'' ''/out'' ''a'' 3 example_fs"
  have source: "example_fs ''/in/a.pdf'' \<noteq> None" "?fs_c ''/in/a.pdf'' \<noteq> None"
    by (simp_all add: example_fs_def)
  have written: "?fs_c ''/tmp/a_comp_temp.pdf'' = Some ?big"
    by simp
  have inner: "?inner = (fst ?inner, snd ?inner)" and loop: "?loop = (fst ?loop, snd ?loop)"
    by simp_all
  note split = returned_parts [OF bloating_split, THEN conjunct1]
  note inst = temporary_files_after_processing
    [where E = bloating_env and act = "''Compress Only''" and clevel = "''Standard (GS)''"
      and base_name = "''a.pdf''" and pdf_path = "''/in/a.pdf''"
      and temp_comp = "''/tmp/a_comp_temp.pdf''" and fs = example_fs
      and lg = "[(''a.pdf'', ''0.0'', ''Pending'')]" and fs_c = ?fs_c
      and lg_c = "[(''a.pdf'', ''0.0'', ''Compressing (Standard (GS))...'')]"
      and src = "''/tmp/a_comp_temp.pdf''" and qa = "''/in/a.pdf''" and qb = "''/in/a.pdf''"
      and output_folder = "''/out''" and split_mb = "Finite 1" and fs_end = ?fs_end
      and lg_end = "[(''a.pdf'', ''0.0'', ''Done (Saved)'')]" and r = "Inr ()"
      and final_output = "''/out/a_processed.pdf''" and compressed = ?big
      and doc = "[1, 2, 3, 4, 5]" and trial_path = "''/tmp/__trial_a.pdf''"
      and max_size_bytes = 3 and part_doc = Blank and p = 2 and fs_a = example_fs
      and fs_b = "fst ?inner" and res_a = "snd ?inner" and qc = "''/in/a.pdf''"
      and base = "''a''" and start = 0 and part_index = 1 and outs = "[]" and fs_l = example_fs
      and fs_m = "fst ?loop" and res_l = "snd ?loop" and qd = "''/in/a.pdf''"
      and fs_in = example_fs and src_path = "''/in/a.pdf''" and fs_out = "fst ?split"
      and outputs = "projr (snd ?split)"]
  from inst bloating_block bloating_a_paths written
  have body: "try_body bloating_env ''/out'' (Finite 1) ''Compress Only'' ''Standard (GS)''
       ''/in/a.pdf'' ''a.pdf'' (example_fs, [(''a.pdf'', ''0.0'', ''Pending'')]) =
     ((?fs_end, [(''a.pdf'', ''0.0'', ''Done (Saved)'')]), Inr ())"
    by simp
  have mode: "str_in ''Split'' ''Compress + Split''"
    by simp
  note inst_split = temporary_files_after_processing
    [where E = bloating_env and act = "''Compress + Split''" and clevel = "''Standard (GS)''"
      and base_name = "''a.pdf''" and pdf_path = "''/in/a.pdf''"
      and temp_comp = "''/tmp/a_comp_temp.pdf''" and fs = example_fs
      and lg = "[(''a.pdf'', ''0.0'', ''Pending'')]" and fs_c = ?fs_c
      and lg_c = "[(''a.pdf'', ''0.0'', ''Compressing (Standard (GS))...'')]"
      and src = "''/tmp/a_comp_temp.pdf''" and output_folder = "''/out''"
      and split_mb = "Finite 1", THEN conjunct2, THEN conjunct2, THEN conjunct2,
      THEN conjunct1]
  from inst_split bloating_block_split bloating_a_paths mode example_target_bytes
  have files: "fst (fst (try_body bloating_env ''/out'' (Finite 1) ''Compress + Split''
         ''Standard (GS)'' ''/in/a.pdf'' ''a.pdf'' (example_fs, [(''a.pdf'', ''0.0'', ''Pending'')]))) =
       fst (split_pdf bloating_env ''/tmp/a_comp_temp.pdf'' ''/out'' ''a'' 1048576 ?fs_c)"
    by (simp add: bloating_env_def example_env_def example_splitext_def)
  from inst bloating_block bloating_a_paths written body source inner [symmetric]
    loop [symmetric] bloating_open split [symmetric] bloating_block_split files
  show ?thesis by simp
qed

text \<open>
  C9, as the specification states it, fails: before the run below the temporary
  directory holds neither file; the run ends with the status Done (Split), and
  afterwards the trial file and the compressed working copy are both in the temporary
  directory, next to the one part written to the output folder.
\<close>

theorem temporary_files_remain_counterexample:
  "example_fs ''/tmp/__trial_a.pdf'' = None \<and>
   example_fs ''/tmp/a_comp_temp.pdf'' = None \<and>
   snd (run_loop example_env ''/out'' (Finite 1) ''Compress + Split'' ''Standard (GS)''
          [''/in/a.pdf''] (example_fs, [(''a.pdf'', ''0.0'', ''Pending'')])) =
     [(''a.pdf'', ''0.0'', ''Done (Split)'')] \<and>
   fst (run_loop example_env ''/out'' (Finite 1) ''Compress + Split'' ''Standard (GS)''
          [''/in/a.pdf''] (example_fs, [(''a.pdf'', ''0.0'', ''Pending'')]))
     ''/tmp/__trial_a.pdf'' = Some [37, 1, 2, 3, 4, 5] \<and>
   fst (run_loop example_env ''/out'' (Finite 1) ''Compress + Split'' ''Standard (GS)''
          [''/in/a.pdf''] (example_fs, [(''a.pdf'', ''0.0'', ''Pending'')]))
     ''/tmp/a_comp_temp.pdf'' = Some [37, 1, 2, 3, 4, 5] \<and>
   fst (run_loop example_env ''/out'' (Finite 1) ''Compress + Split'' ''Standard (GS)''
          [''/in/a.pdf''] (example_fs, [(''a.pdf'', ''0.0'', ''Pending'')]))
     ''/out/a_part1.pdf'' = Some [37, 1, 2, 3, 4, 5]"
  by code_simp

end
